theory Spec2Isabelle
  imports Main "HOL-Library.AList"
begin

text \<open>
  A model of the event emitter of \<^verbatim>\<open>src/model.ts\<close> with the operation chains of
  \<^verbatim>\<open>src/operation.ts\<close>: subscription, unsubscription, emission through the
  throttle and debounce gates, delivery to per-name and wildcard listeners,
  targeted emission and the clearing operations. Every function takes the state
  it reads and returns the state it leaves. The promise of \<^verbatim>\<open>once\<close> is not
  modelled.
\<close>

section \<open>Values, handlers and the host environment\<close>

text \<open>
  A payload is a JavaScript value. The code tests payloads against \<^verbatim>\<open>undefined\<close>
  only, so a value is either \<^verbatim>\<open>undefined\<close> or anything else. Values are immutable
  here: a handler that mutates its argument object in place is outside the model.
\<close>

datatype 'v js = Undefined | Value 'v

text \<open>
  A user callback either returns or throws. Callbacks are closures over mutable
  state of the surrounding program; that state is the \<open>world\<close> of type \<open>'w\<close>, which
  a callback reads and writes (also before it throws). Callbacks do not call back
  into the emitter.
\<close>

datatype 'r outcome = Returns 'r | Throws

datatype console_entry = ConsoleError string | ConsoleWarn string

text \<open>
  A pending \<^verbatim>\<open>setTimeout\<close> callback of \<^verbatim>\<open>emit\<close>. The closure
  \<^verbatim>\<open>() => { this.debounceTimers.delete(event); this._emitInternal(event, data); }\<close>
  is determined by the \<open>event\<close> and \<open>data\<close> it captured.
\<close>

record 'v timer =
  handle :: nat
  due :: int
  tevent :: string
  tdata :: "'v js"

text \<open>
  The host: the world of the callbacks, the console, the pending timers of the
  platform with the next fresh timer handle, and the \<^verbatim>\<open>abort\<close> listeners that
  \<^verbatim>\<open>on\<close> attached to signals (signal, event, listener id).
\<close>

record ('v, 'w) host =
  world :: 'w
  console :: "console_entry list"
  timers :: "'v timer list"
  next_handle :: nat
  abort_hooks :: "(nat \<times> string \<times> string) list"

definition call :: "('a \<Rightarrow> 'w \<Rightarrow> 'r outcome \<times> 'w) \<Rightarrow> 'a \<Rightarrow> ('v, 'w) host
    \<Rightarrow> 'r outcome \<times> ('v, 'w) host" where
  "call f a h = (case f a (world h) of (r, w') \<Rightarrow> (r, h\<lparr>world := w'\<rparr>))"

definition console_error :: "string \<Rightarrow> ('v, 'w) host \<Rightarrow> ('v, 'w) host" where
  "console_error msg h = h\<lparr>console := console h @ [ConsoleError msg]\<rparr>"

definition console_warn :: "string \<Rightarrow> ('v, 'w) host \<Rightarrow> ('v, 'w) host" where
  "console_warn msg h = h\<lparr>console := console h @ [ConsoleWarn msg]\<rparr>"

section \<open>Operation chains (operation.ts)\<close>

text \<open>
  \<^verbatim>\<open>OperationStep\<close>: the tag \<^verbatim>\<open>type\<close> with the handler it goes with. A filter's
  result is used for its truthiness only.
\<close>

datatype ('v, 'w) step =
    Transform "'v js \<Rightarrow> 'w \<Rightarrow> 'v js outcome \<times> 'w"
  | Filter "'v js \<Rightarrow> 'w \<Rightarrow> bool outcome \<times> 'w"
  | Tap "'v js \<Rightarrow> 'w \<Rightarrow> unit outcome \<times> 'w"

record ('v, 'w) OperationChain =
  eventType :: string
  steps :: "('v, 'w) step list"

definition transform :: "('v js \<Rightarrow> 'w \<Rightarrow> 'v js outcome \<times> 'w) \<Rightarrow> ('v, 'w) OperationChain
    \<Rightarrow> ('v, 'w) OperationChain" where
  "transform f c = \<lparr>eventType = eventType c, steps = steps c @ [Transform f]\<rparr>"

definition filter_op :: "('v js \<Rightarrow> 'w \<Rightarrow> bool outcome \<times> 'w) \<Rightarrow> ('v, 'w) OperationChain
    \<Rightarrow> ('v, 'w) OperationChain" where
  "filter_op f c = \<lparr>eventType = eventType c, steps = steps c @ [Filter f]\<rparr>"

definition tap :: "('v js \<Rightarrow> 'w \<Rightarrow> unit outcome \<times> 'w) \<Rightarrow> ('v, 'w) OperationChain
    \<Rightarrow> ('v, 'w) OperationChain" where
  "tap f c = \<lparr>eventType = eventType c, steps = steps c @ [Tap f]\<rparr>"

text \<open>
  The loop of \<^verbatim>\<open>execute\<close> over the remaining steps with the running value
  \<open>result\<close>. \<open>None\<close> is a \<^verbatim>\<open>return undefined\<close> from inside the loop, \<open>Some r\<close> is
  the loop running to its end with \<open>result = r\<close>. The \<^verbatim>\<open>catch\<close> reports on the
  console and returns only for a transform.
\<close>

fun execute_loop :: "('v, 'w) step list \<Rightarrow> 'v js \<Rightarrow> ('v, 'w) host
    \<Rightarrow> 'v js option \<times> ('v, 'w) host" where
  "execute_loop [] result h = (Some result, h)"
| "execute_loop (Transform f # rest) result h =
     (case call f result h of
        (Returns r, h') \<Rightarrow> execute_loop rest r h'
      | (Throws, h') \<Rightarrow> (None, console_error ''Error in operation step transform:'' h'))"
| "execute_loop (Filter f # rest) result h =
     (case call f result h of
        (Returns keep, h') \<Rightarrow> if \<not> keep then (None, h') else execute_loop rest result h'
      | (Throws, h') \<Rightarrow>
          execute_loop rest result (console_error ''Error in operation step filter:'' h'))"
| "execute_loop (Tap f # rest) result h =
     (case call f result h of
        (Returns u, h') \<Rightarrow> execute_loop rest result h'
      | (Throws, h') \<Rightarrow>
          execute_loop rest result (console_error ''Error in operation step tap:'' h'))"

definition execute :: "('v, 'w) OperationChain \<Rightarrow> 'v js \<Rightarrow> ('v, 'w) host
    \<Rightarrow> 'v js \<times> ('v, 'w) host" where
  "execute c eventData h =
     (case execute_loop (steps c) eventData h of
        (None, h') \<Rightarrow> (Undefined, h')
      | (Some result, h') \<Rightarrow> (result, h'))"

section \<open>The emitter (model.ts)\<close>

text \<open>
  A listener callback is a function object: \<open>ref\<close> is its identity (what
  \<^verbatim>\<open>!==\<close> compares), \<open>body\<close> what it does. It is called with the processed
  payload, or, as a wildcard listener, with the object \<^verbatim>\<open>{type: event, data}\<close>.
\<close>

datatype 'v listener_arg = Payload "'v js" | Envelope string "'v js"

datatype ('v, 'w) handler_fn =
  Handler (ref: nat) (body: "'v listener_arg \<Rightarrow> 'w \<Rightarrow> unit outcome \<times> 'w")

text \<open>\<^verbatim>\<open>ListenerWithId\<close>; the field \<^verbatim>\<open>id\<close> is \<open>lid\<close> here.\<close>

record ('v, 'w) listener =
  lid :: string
  handler :: "('v, 'w) handler_fn"

text \<open>
  The private fields of \<^verbatim>\<open>EventEmitter\<close>. Event names are strings, \<^verbatim>\<open>'*'\<close> the
  wildcard. A \<^verbatim>\<open>Set\<close> of listener objects is the list of its elements in insertion
  order (every listener object is fresh, so adding never finds it present).
  \<^verbatim>\<open>debounceTimers\<close> is iterated by the code, so it is an association list in
  insertion order; the other maps are only looked up and updated. Numbers are
  integers: delays and times in milliseconds, \<^verbatim>\<open>Date.now()\<close> is the argument
  \<open>now\<close> of \<open>emit\<close>.
\<close>

record ('v, 'w) emitter =
  maxListeners :: int
  listeners :: "string \<rightharpoonup> ('v, 'w) listener list"
  wildcardListeners :: "('v, 'w) listener list"
  operationChains :: "string \<rightharpoonup> ('v, 'w) OperationChain"
  debounceTimers :: "(string \<times> nat) list"
  debounceDelays :: "string \<rightharpoonup> int"
  throttleTimers :: "string \<rightharpoonup> int"
  throttleDelays :: "string \<rightharpoonup> int"
  idCounter :: nat

record EventEmitterOptions =
  maxListeners_opt :: "int option"

datatype error = Error string

text \<open>
  The constructor. \<open>None\<close> is a call without argument, which takes the default
  \<^verbatim>\<open>{ maxListeners: 10 }\<close>; \<open>maxListeners_opt = None\<close> is an options object without
  the key. A number is truthy when it is not 0.
\<close>

definition new_EventEmitter :: "EventEmitterOptions option \<Rightarrow> error + ('v, 'w) emitter" where
  "new_EventEmitter cfg =
     (let config = (case cfg of None \<Rightarrow> \<lparr>maxListeners_opt = Some 10\<rparr> | Some c \<Rightarrow> c)
      in if (case maxListeners_opt config of Some n \<Rightarrow> n \<noteq> 0 \<and> n < 0 | None \<Rightarrow> False)
         then Inl (Error ''maxListeners cannot be negative'')
         else Inr \<lparr>maxListeners =
                     (case maxListeners_opt config of
                        Some n \<Rightarrow> if n \<noteq> 0 then n else 10
                      | None \<Rightarrow> 10),
                   listeners = Map.empty, wildcardListeners = [],
                   operationChains = Map.empty, debounceTimers = [],
                   debounceDelays = Map.empty, throttleTimers = Map.empty,
                   throttleDelays = Map.empty, idCounter = 0\<rparr>)"

definition getMaxListeners :: "('v, 'w) emitter \<Rightarrow> int" where
  "getMaxListeners em = maxListeners em"

definition setMaxListeners :: "int \<Rightarrow> ('v, 'w) emitter \<Rightarrow> error + ('v, 'w) emitter" where
  "setMaxListeners n em =
     (if n < 0 then Inl (Error ''maxListeners cannot be negative'')
      else Inr (em\<lparr>maxListeners := n\<rparr>))"

definition listenerCount :: "string \<Rightarrow> ('v, 'w) emitter \<Rightarrow> nat" where
  "listenerCount event em =
     (if event = ''*'' then length (wildcardListeners em)
      else (case listeners em event of Some l \<Rightarrow> length l | None \<Rightarrow> 0))"

text \<open>The template literal \<^verbatim>\<open>`${this.idCounter++}`\<close>: the counter in decimal.\<close>

fun string_of_nat :: "nat \<Rightarrow> string" where
  "string_of_nat n =
     (if n < 10 then [''0123456789'' ! n]
      else string_of_nat (n div 10) @ [''0123456789'' ! (n mod 10)])"

declare string_of_nat.simps [simp del]

record signal =
  sig_ref :: nat
  aborted :: bool

text \<open>
  \<^verbatim>\<open>on\<close>. The abort listener \<^verbatim>\<open>() => this.off(event, id)\<close> that is attached to a
  signal is recorded in the host as (signal, event, id).
\<close>

definition on :: "string \<Rightarrow> ('v, 'w) handler_fn \<Rightarrow> signal option \<Rightarrow> ('v, 'w) emitter
    \<Rightarrow> ('v, 'w) host \<Rightarrow> string \<times> ('v, 'w) emitter \<times> ('v, 'w) host" where
  "on event listener sig em h =
     (let id = string_of_nat (idCounter em);
          em1 = em\<lparr>idCounter := idCounter em + 1\<rparr>
      in if (case sig of Some s \<Rightarrow> aborted s | None \<Rightarrow> False) then (id, em1, h)
         else
           let h1 =
                 (if event = ''*'' then
                    (if maxListeners em1 > 0
                        \<and> int (length (wildcardListeners em1)) \<ge> maxListeners em1
                     then console_warn ''Max listeners exceeded for wildcard event'' h
                     else h)
                  else
                    (if maxListeners em1 > 0
                        \<and> int (listenerCount event em1) \<ge> maxListeners em1
                     then console_warn (''Max listeners exceeded for event: '' @ event) h
                     else h));
               listenerWithId = \<lparr>lid = id, handler = listener\<rparr>;
               h2 = (case sig of
                       Some s \<Rightarrow> h1\<lparr>abort_hooks := abort_hooks h1 @ [(sig_ref s, event, id)]\<rparr>
                     | None \<Rightarrow> h1)
           in if event = ''*'' then
                (id, em1\<lparr>wildcardListeners := wildcardListeners em1 @ [listenerWithId]\<rparr>, h2)
              else
                (let existingListeners =
                       (case listeners em1 event of Some l \<Rightarrow> l | None \<Rightarrow> [])
                 in (id,
                     em1\<lparr>listeners :=
                           (listeners em1)(event \<mapsto> existingListeners @ [listenerWithId])\<rparr>,
                     h2)))"

text \<open>\<^verbatim>\<open>off\<close>: the second argument is a string (an id) or a function.\<close>

datatype ('v, 'w) id_or_handler = ById string | ByHandler "('v, 'w) handler_fn"

definition off :: "string \<Rightarrow> ('v, 'w) id_or_handler \<Rightarrow> ('v, 'w) emitter
    \<Rightarrow> bool \<times> ('v, 'w) emitter" where
  "off event idOrHandler em =
     (let keep = (case idOrHandler of
                    ById i \<Rightarrow> (\<lambda>l. lid l \<noteq> i)
                  | ByHandler f \<Rightarrow> (\<lambda>l. ref (handler l) \<noteq> ref f))
      in if event = ''*'' then
           (let before = length (wildcardListeners em);
                em1 = em\<lparr>wildcardListeners := filter keep (wildcardListeners em)\<rparr>
            in (length (wildcardListeners em1) \<noteq> before, em1))
         else
           (case listeners em event of
              None \<Rightarrow> (False, em)
            | Some lset \<Rightarrow>
                (let filtered = filter keep lset
                 in if length filtered = length lset then (False, em)
                    else (True, em\<lparr>listeners := (listeners em)(event \<mapsto> filtered)\<rparr>))))"

definition setOperation :: "string \<Rightarrow> ('v, 'w) OperationChain \<Rightarrow> ('v, 'w) emitter
    \<Rightarrow> ('v, 'w) emitter" where
  "setOperation event chain em = em\<lparr>operationChains := (operationChains em)(event \<mapsto> chain)\<rparr>"

definition setDebounce :: "string \<Rightarrow> int \<Rightarrow> ('v, 'w) emitter \<Rightarrow> ('v, 'w) emitter" where
  "setDebounce event delayMs em = em\<lparr>debounceDelays := (debounceDelays em)(event \<mapsto> delayMs)\<rparr>"

definition setThrottle :: "string \<Rightarrow> int \<Rightarrow> ('v, 'w) emitter \<Rightarrow> ('v, 'w) emitter" where
  "setThrottle event delayMs em = em\<lparr>throttleDelays := (throttleDelays em)(event \<mapsto> delayMs)\<rparr>"

subsection \<open>Delivery\<close>

text \<open>The loop over the per-name listeners, each call in its own \<^verbatim>\<open>try\<close>.\<close>

fun invoke_listeners :: "string \<Rightarrow> ('v, 'w) listener list \<Rightarrow> 'v js \<Rightarrow> ('v, 'w) host
    \<Rightarrow> ('v, 'w) host" where
  "invoke_listeners event [] processedData h = h"
| "invoke_listeners event (l # ls) processedData h =
     (case call (body (handler l)) (Payload processedData) h of
        (Returns u, h') \<Rightarrow> invoke_listeners event ls processedData h'
      | (Throws, h') \<Rightarrow>
          invoke_listeners event ls processedData
            (console_error (''Error in event listener for '' @ event @ '':'') h'))"

text \<open>
  The loop over the wildcard listeners, with the variable \<^verbatim>\<open>called\<close>. The chain is
  executed inside the \<^verbatim>\<open>try\<close>, once for each listener; \<^verbatim>\<open>called = true\<close>
  comes after the handler's call, so a handler that throws skips it.
\<close>

fun wildcard_loop :: "string \<Rightarrow> ('v, 'w) OperationChain option \<Rightarrow> 'v js
    \<Rightarrow> ('v, 'w) listener list \<Rightarrow> bool \<Rightarrow> ('v, 'w) host \<Rightarrow> bool \<times> ('v, 'w) host" where
  "wildcard_loop event chain d [] called h = (called, h)"
| "wildcard_loop event chain d (l # ls) called h =
     (case (case chain of Some c \<Rightarrow> execute c d h | None \<Rightarrow> (d, h)) of
        (wildcardData, h1) \<Rightarrow>
          if wildcardData \<noteq> Undefined then
            (case call (body (handler l)) (Envelope event wildcardData) h1 of
               (Returns u, h2) \<Rightarrow> wildcard_loop event chain d ls True h2
             | (Throws, h2) \<Rightarrow>
                 wildcard_loop event chain d ls called
                   (console_error (''Error in wildcard listener for '' @ event @ '':'') h2))
          else wildcard_loop event chain d ls called h1)"

text \<open>\<^verbatim>\<open>_emitInternal\<close>. It reads the emitter and changes the host only.\<close>

definition emitInternal :: "string \<Rightarrow> 'v js \<Rightarrow> ('v, 'w) emitter \<Rightarrow> ('v, 'w) host
    \<Rightarrow> bool \<times> ('v, 'w) host" where
  "emitInternal event d em h =
     (let chain = operationChains em event
      in if listeners em event = None \<and> length (wildcardListeners em) = 0 then (False, h)
         else
           (case listeners em event of
              Some lset \<Rightarrow>
                if length lset > 0 then
                  (case (case chain of Some c \<Rightarrow> execute c d h | None \<Rightarrow> (d, h)) of
                     (processedData, h1) \<Rightarrow>
                       if processedData = Undefined then (False, h1)
                       else wildcard_loop event chain d (wildcardListeners em) True
                              (invoke_listeners event lset processedData h1))
                else wildcard_loop event chain d (wildcardListeners em) False h
            | None \<Rightarrow> wildcard_loop event chain d (wildcardListeners em) False h))"

definition emitToListener :: "string \<Rightarrow> 'v js \<Rightarrow> string \<Rightarrow> ('v, 'w) emitter \<Rightarrow> ('v, 'w) host
    \<Rightarrow> bool \<times> ('v, 'w) host" where
  "emitToListener event d listenerId em h =
     (case listeners em event of
        None \<Rightarrow> (False, h)
      | Some lset \<Rightarrow>
          (case find (\<lambda>l. lid l = listenerId) lset of
             None \<Rightarrow> (False, h)
           | Some targetListener \<Rightarrow>
               (case (case operationChains em event of
                        Some c \<Rightarrow> execute c d h
                      | None \<Rightarrow> (d, h)) of
                  (processedData, h1) \<Rightarrow>
                    if processedData = Undefined then (False, h1)
                    else
                      (case call (body (handler targetListener)) (Payload processedData) h1 of
                         (Returns u, h2) \<Rightarrow> (True, h2)
                       | (Throws, h2) \<Rightarrow>
                           (False,
                            console_error
                              (''Error in specific listener '' @ listenerId @ '' for ''
                                 @ event @ '':'') h2)))))"

subsection \<open>Timers, debounce and throttle\<close>

text \<open>
  The platform's timers (Node, whose \<^verbatim>\<open>NodeJS.Timeout\<close> the emitter stores). A delay
  below 1 ms or above 2147483647 ms is taken as 1 ms: \<open>timeout_ms\<close> is the delay
  the platform applies. \<^verbatim>\<open>setTimeout(cb, delay)\<close> called at time \<open>now\<close> returns a
  fresh handle and leaves a pending timer due at \<open>now + timeout_ms delay\<close>;
  \<^verbatim>\<open>clearTimeout\<close> drops it. A handle is truthy (an object).
\<close>

definition timeout_ms :: "int \<Rightarrow> int" where
  "timeout_ms delay = (if delay < 1 \<or> 2147483647 < delay then 1 else delay)"

definition setTimeout :: "int \<Rightarrow> int \<Rightarrow> string \<Rightarrow> 'v js \<Rightarrow> ('v, 'w) host
    \<Rightarrow> nat \<times> ('v, 'w) host" where
  "setTimeout now delay event d h =
     (next_handle h,
      h\<lparr>timers := timers h @ [\<lparr>handle = next_handle h, due = now + timeout_ms delay,
                                 tevent = event, tdata = d\<rparr>],
        next_handle := next_handle h + 1\<rparr>)"

definition clearTimeout :: "nat \<Rightarrow> ('v, 'w) host \<Rightarrow> ('v, 'w) host" where
  "clearTimeout t h = h\<lparr>timers := filter (\<lambda>x. handle x \<noteq> t) (timers h)\<rparr>"

text \<open>
  The truthiness of a number that may be \<^verbatim>\<open>undefined\<close>, as in \<^verbatim>\<open>if (debounceDelay)\<close>:
  \<^verbatim>\<open>undefined\<close> and 0 are falsy.
\<close>

fun truthy :: "int option \<Rightarrow> bool" where
  "truthy None = False"
| "truthy (Some n) = (n \<noteq> 0)"

text \<open>\<open>num\<close> reads a number where the code has found it truthy.\<close>

fun num :: "int option \<Rightarrow> int" where
  "num None = 0"
| "num (Some n) = n"

text \<open>Lines 174 to 189 of \<^verbatim>\<open>emit\<close>: the debounce branch, else the delivery.\<close>

definition debounce_or_deliver :: "int \<Rightarrow> string \<Rightarrow> 'v js \<Rightarrow> ('v, 'w) emitter
    \<Rightarrow> ('v, 'w) host \<Rightarrow> bool \<times> ('v, 'w) emitter \<times> ('v, 'w) host" where
  "debounce_or_deliver now event d em h =
     (let debounceDelay = debounceDelays em event
      in if truthy debounceDelay then
           (let h1 = (case map_of (debounceTimers em) event of
                        Some existingTimer \<Rightarrow> clearTimeout existingTimer h
                      | None \<Rightarrow> h)
            in case setTimeout now (num debounceDelay) event d h1 of
                 (newTimer, h2) \<Rightarrow>
                   (True,
                    em\<lparr>debounceTimers := AList.update event newTimer (debounceTimers em)\<rparr>,
                    h2))
         else (case emitInternal event d em h of (r, h') \<Rightarrow> (r, em, h')))"

text \<open>
  \<^verbatim>\<open>emit\<close>: the throttle gate of lines 165 to 172, then the rest.
\<close>

definition emit :: "int \<Rightarrow> string \<Rightarrow> 'v js \<Rightarrow> ('v, 'w) emitter \<Rightarrow> ('v, 'w) host
    \<Rightarrow> bool \<times> ('v, 'w) emitter \<times> ('v, 'w) host" where
  "emit now event d em h =
     (let throttleDelay = throttleDelays em event
      in if truthy throttleDelay then
           (let currentTime = now;
                lastThrottleTime = throttleTimers em event
            in if truthy lastThrottleTime
                  \<and> currentTime - num lastThrottleTime < num throttleDelay
               then (False, em, h)
               else debounce_or_deliver now event d
                      (em\<lparr>throttleTimers := (throttleTimers em)(event \<mapsto> currentTime)\<rparr>) h)
         else debounce_or_deliver now event d em h)"

text \<open>
  The condition under which the gate of \<open>emit\<close> returns false: a truthy delay, a
  truthy last-fire time, and less than the delay elapsed since.
\<close>

definition throttle_drops :: "int \<Rightarrow> string \<Rightarrow> ('v, 'w) emitter \<Rightarrow> bool" where
  "throttle_drops now event em =
     (truthy (throttleDelays em event) \<and> truthy (throttleTimers em event)
      \<and> now - num (throttleTimers em event) < num (throttleDelays em event))"

text \<open>
  The timer callback of \<^verbatim>\<open>emit\<close>, and the platform running the pending timers
  that are due at time \<open>now\<close>, earliest first. A timer that runs is no longer
  pending.
\<close>

definition debounce_callback :: "string \<Rightarrow> 'v js \<Rightarrow> ('v, 'w) emitter \<Rightarrow> ('v, 'w) host
    \<Rightarrow> ('v, 'w) emitter \<times> ('v, 'w) host" where
  "debounce_callback event d em h =
     (let em1 = em\<lparr>debounceTimers := AList.delete event (debounceTimers em)\<rparr>
      in (em1, snd (emitInternal event d em1 h)))"

definition fire :: "'v timer \<Rightarrow> ('v, 'w) emitter \<times> ('v, 'w) host
    \<Rightarrow> ('v, 'w) emitter \<times> ('v, 'w) host" where
  "fire t s =
     (case s of (em, h) \<Rightarrow>
        if handle t \<in> handle ` set (timers h)
        then debounce_callback (tevent t) (tdata t) em (clearTimeout (handle t) h)
        else (em, h))"

definition run_due :: "int \<Rightarrow> ('v, 'w) emitter \<times> ('v, 'w) host
    \<Rightarrow> ('v, 'w) emitter \<times> ('v, 'w) host" where
  "run_due now s = fold fire (sort_key due (filter (\<lambda>t. due t \<le> now) (timers (snd s)))) s"

subsection \<open>Clearing\<close>

text \<open>
  \<^verbatim>\<open>removeAllListeners(event?)\<close>: \<open>None\<close> is the call without argument. The test
  \<^verbatim>\<open>if (event)\<close> is on the truthiness of the name: the empty string is falsy.
\<close>

definition removeAllListeners :: "string option \<Rightarrow> ('v, 'w) emitter \<Rightarrow> ('v, 'w) host
    \<Rightarrow> ('v, 'w) emitter \<times> ('v, 'w) host" where
  "removeAllListeners event_opt em h =
     (if (case event_opt of Some event \<Rightarrow> event \<noteq> [] | None \<Rightarrow> False) then
        (let event = (case event_opt of Some e \<Rightarrow> e | None \<Rightarrow> [])
         in (em\<lparr>listeners := (listeners em)(event := None),
                debounceTimers := AList.delete event (debounceTimers em),
                throttleTimers := (throttleTimers em)(event := None)\<rparr>,
             (case map_of (debounceTimers em) event of
                Some timer \<Rightarrow> clearTimeout timer h
              | None \<Rightarrow> h)))
      else
        (em\<lparr>listeners := Map.empty, wildcardListeners := [],
            debounceTimers := [], throttleTimers := Map.empty\<rparr>,
         fold clearTimeout (map snd (debounceTimers em)) h))"

definition removeAllOperations :: "string option \<Rightarrow> ('v, 'w) emitter \<Rightarrow> ('v, 'w) host
    \<Rightarrow> ('v, 'w) emitter \<times> ('v, 'w) host" where
  "removeAllOperations event_opt em h =
     (if (case event_opt of Some event \<Rightarrow> event \<noteq> [] | None \<Rightarrow> False) then
        (let event = (case event_opt of Some e \<Rightarrow> e | None \<Rightarrow> [])
         in (em\<lparr>operationChains := (operationChains em)(event := None),
                debounceDelays := (debounceDelays em)(event := None),
                throttleDelays := (throttleDelays em)(event := None),
                debounceTimers := AList.delete event (debounceTimers em),
                throttleTimers := (throttleTimers em)(event := None)\<rparr>,
             (case map_of (debounceTimers em) event of
                Some timer \<Rightarrow> clearTimeout timer h
              | None \<Rightarrow> h)))
      else
        (em\<lparr>operationChains := Map.empty, debounceDelays := Map.empty,
            throttleDelays := Map.empty,
            debounceTimers := [], throttleTimers := Map.empty\<rparr>,
         fold clearTimeout (map snd (debounceTimers em)) h))"

section \<open>Sample callbacks and states\<close>

text \<open>
  For the concrete instances below the world is a trace: a step handler appends
  \<open>Ran n\<close> when it runs, a listener appends \<open>Got n a\<close> when it is called with \<open>a\<close>.
\<close>

datatype obs = Ran nat | Got nat "nat listener_arg"

definition host0 :: "(nat, obs list) host" where
  "host0 = \<lparr>world = [], console = [], timers = [], next_handle = 1, abort_hooks = []\<rparr>"

definition mark :: "nat \<Rightarrow> 'a \<Rightarrow> obs list \<Rightarrow> unit outcome \<times> obs list" where
  "mark n a w = (Returns (), w @ [Ran n])"

definition boom :: "nat \<Rightarrow> 'a \<Rightarrow> obs list \<Rightarrow> 'r outcome \<times> obs list" where
  "boom n a w = (Throws, w @ [Ran n])"

definition answer :: "nat \<Rightarrow> bool \<Rightarrow> 'a \<Rightarrow> obs list \<Rightarrow> bool outcome \<times> obs list" where
  "answer n b a w = (Returns b, w @ [Ran n])"

definition recv :: "nat \<Rightarrow> (nat, obs list) handler_fn" where
  "recv n = Handler n (\<lambda>a w. (Returns (), w @ [Got n a]))"

definition emitter0 :: "(nat, obs list) emitter" where
  "emitter0 = \<lparr>maxListeners = 10, listeners = Map.empty, wildcardListeners = [],
                operationChains = Map.empty, debounceTimers = [],
                debounceDelays = Map.empty, throttleTimers = Map.empty,
                throttleDelays = Map.empty, idCounter = 0\<rparr>"

definition nonzero :: "nat \<Rightarrow> nat js \<Rightarrow> obs list \<Rightarrow> bool outcome \<times> obs list" where
  "nonzero n d w = (Returns (d \<noteq> Value 0), w @ [Ran n])"

definition emitter_gated :: "(nat, obs list) emitter" where
  "emitter_gated =
     emitter0\<lparr>listeners := [''e'' \<mapsto> [\<lparr>lid = ''0'', handler = recv 10\<rparr>,
                                      \<lparr>lid = ''1'', handler = Handler 11 (boom 11)\<rparr>]],
              operationChains := [''e'' \<mapsto> \<lparr>eventType = ''e'', steps = [Filter (nonzero 2)]\<rparr>],
              debounceDelays := [''e'' \<mapsto> 100], throttleDelays := [''e'' \<mapsto> 100],
              throttleTimers := [''e'' \<mapsto> 50]\<rparr>"

text \<open>
  The listeners registered under a name: the list that \<^verbatim>\<open>listenerCount\<close> measures.
\<close>

definition registered :: "string \<Rightarrow> ('v, 'w) emitter \<Rightarrow> ('v, 'w) listener list" where
  "registered event em =
     (if event = ''*'' then wildcardListeners em
      else (case listeners em event of Some l \<Rightarrow> l | None \<Rightarrow> []))"

definition subscribed_twice :: "(nat, obs list) emitter" where
  "subscribed_twice =
     fst (snd (on ''e'' (recv 10) None
       (fst (snd (on ''e'' (recv 11) None
         (fst (snd (on ''e'' (recv 10) None emitter0 host0))) host0))) host0))"

text \<open>
  Subscribing \<open>n\<close> listeners to one name, a filter that lets every evaluation but
  the first pass, and states with listeners, chains and timers in place.
\<close>

fun on_times :: "nat \<Rightarrow> (nat, obs list) emitter \<times> (nat, obs list) host
    \<Rightarrow> (nat, obs list) emitter \<times> (nat, obs list) host" where
  "on_times 0 s = s"
| "on_times (Suc n) s = on_times n (snd (on ''e'' (recv 10) None (fst s) (snd s)))"




definition emitter_named :: "(nat, obs list) emitter" where
  "emitter_named =
     emitter0\<lparr>listeners := [''a'' \<mapsto> [\<lparr>lid = ''0'', handler = recv 10\<rparr>],
                            '''' \<mapsto> [\<lparr>lid = ''1'', handler = recv 11\<rparr>]],
              wildcardListeners := [\<lparr>lid = ''2'', handler = recv 12\<rparr>],
              debounceDelays := [''a'' \<mapsto> 100], throttleDelays := [''a'' \<mapsto> 50],
              debounceTimers := [(''a'', 1)], throttleTimers := [''a'' \<mapsto> 1000],
              idCounter := 3\<rparr>"

definition host_pending :: "(nat, obs list) host" where
  "host_pending =
     host0\<lparr>timers := [\<lparr>handle = 1, due = 1100, tevent = ''a'', tdata = Value 5\<rparr>],
           next_handle := 2\<rparr>"

definition emitter_one :: "(nat, obs list) emitter" where
  "emitter_one = emitter0\<lparr>listeners := [''e'' \<mapsto> [\<lparr>lid = ''0'', handler = recv 10\<rparr>]],
                          idCounter := 1\<rparr>"

definition throttled_at :: "int \<Rightarrow> int \<Rightarrow> (nat, obs list) emitter" where
  "throttled_at D t = fst (snd (emit t ''e'' (Value 5) (setThrottle ''e'' D emitter_one) host0))"

text \<open>
  A burst: calls \<open>(t, d)\<close> of \<open>emit\<close> on one name at times \<open>t\<close> with payloads \<open>d\<close>,
  each less than \<open>D\<close> after the one before. Before each call the platform runs the
  timers that are due. \<open>emit_burst\<close> gives the results of the calls and the final
  state. \<open>one_pending\<close> describes the state after call number \<open>k\<close> of a burst that
  started from \<open>em\<close> and \<open>h\<close>: nothing delivered yet and one timer pending, for the
  payload of that call.
\<close>

fun burst_within :: "int \<Rightarrow> (int \<times> 'a) list \<Rightarrow> bool" where
  "burst_within D [] = True"
| "burst_within D [c] = True"
| "burst_within D (c # c' # cs) =
     (fst c \<le> fst c' \<and> fst c' - fst c < D \<and> burst_within D (c' # cs))"

fun emit_burst :: "string \<Rightarrow> (int \<times> 'v js) list \<Rightarrow> ('v, 'w) emitter \<times> ('v, 'w) host
    \<Rightarrow> bool list \<times> ('v, 'w) emitter \<times> ('v, 'w) host" where
  "emit_burst e [] s = ([], s)"
| "emit_burst e (c # cs) s =
     (case run_due (fst c) s of
        (em, h) \<Rightarrow>
          (case emit (fst c) e (snd c) em h of
             (r, s') \<Rightarrow> (case emit_burst e cs s' of (rs, s'') \<Rightarrow> (r # rs, s''))))"

definition one_pending :: "('v, 'w) emitter \<Rightarrow> ('v, 'w) host \<Rightarrow> string \<Rightarrow> nat \<Rightarrow> int \<Rightarrow> 'v js
    \<Rightarrow> ('v, 'w) emitter \<times> ('v, 'w) host \<Rightarrow> bool" where
  "one_pending em h e k t d s =
     (listeners (fst s) = listeners em \<and> wildcardListeners (fst s) = wildcardListeners em
      \<and> operationChains (fst s) = operationChains em
      \<and> debounceDelays (fst s) = debounceDelays em \<and> throttleDelays (fst s) = throttleDelays em
      \<and> world (snd s) = world h \<and> console (snd s) = console h
      \<and> abort_hooks (snd s) = abort_hooks h
      \<and> next_handle (snd s) = next_handle h + Suc k
      \<and> timers (snd s) = [\<lparr>handle = next_handle h + k, due = t + timeout_ms (num (debounceDelays em e)),
                              tevent = e, tdata = d\<rparr>]
      \<and> map_of (debounceTimers (fst s)) e = Some (next_handle h + k))"

definition emitter_debounced :: "(nat, obs list) emitter" where
  "emitter_debounced = setDebounce ''e'' 10 emitter_one"

section \<open>Properties of the operation chain\<close>

lemma execute_loop_append:
  "execute_loop (pre @ post) d h =
     (case execute_loop pre d h of
        (None, h') \<Rightarrow> (None, h')
      | (Some r, h') \<Rightarrow> execute_loop post r h')"
proof (induction pre d h rule: execute_loop.induct)
  case (1 result h)
  show ?case by simp
next
  case (2 f rest result h)
  then show ?case by (simp split: prod.splits outcome.splits)
next
  case (3 f rest result h)
  then show ?case by (simp split: prod.splits outcome.splits)
next
  case (4 f rest result h)
  then show ?case by (simp split: prod.splits outcome.splits)
qed

text \<open>
  Claim C4. For every chain and input: when the handler of a transform step throws,
  the evaluation returns \<^verbatim>\<open>undefined\<close> (SUPPRESSED) at once, whatever steps
  \<open>post\<close> follow; when the handler of a filter or tap step throws, the evaluation
  goes on with the steps after it on the unchanged running value \<open>r\<close>, as it does
  after a filter that returned true. In each case \<open>execute\<close> returns a value: the
  error is reported on the console and goes no further.
\<close>

theorem handler_failure_policy:
  assumes "execute_loop pre d h = (Some r, h1)"
  shows "(call f r h1 = (Throws, h2) \<longrightarrow>
            execute \<lparr>eventType = e, steps = pre @ Transform f # post\<rparr> d h =
              (Undefined, console_error ''Error in operation step transform:'' h2))
       \<and> (call g r h1 = (Throws, h3) \<longrightarrow>
            execute \<lparr>eventType = e, steps = pre @ Filter g # post\<rparr> d h =
              execute \<lparr>eventType = e, steps = post\<rparr> r
                (console_error ''Error in operation step filter:'' h3))
       \<and> (call g' r h1 = (Returns True, h5) \<longrightarrow>
            execute \<lparr>eventType = e, steps = pre @ Filter g' # post\<rparr> d h =
              execute \<lparr>eventType = e, steps = post\<rparr> r h5)
       \<and> (call t r h1 = (Throws, h4) \<longrightarrow>
            execute \<lparr>eventType = e, steps = pre @ Tap t # post\<rparr> d h =
              execute \<lparr>eventType = e, steps = post\<rparr> r
                (console_error ''Error in operation step tap:'' h4))"
  using assms by (simp add: execute_def execute_loop_append)

theorem handler_failure_policy_witness:
  "execute \<lparr>eventType = ''e'', steps = [Tap (mark 1), Transform (boom 2), Tap (mark 9)]\<rparr>
     (Value 7) host0 =
     (Undefined, host0\<lparr>world := [Ran 1, Ran 2],
                      console := [ConsoleError ''Error in operation step transform:'']\<rparr>)
   \<and> execute \<lparr>eventType = ''e'', steps = [Tap (mark 1), Filter (boom 3), Tap (mark 9)]\<rparr>
     (Value 7) host0 =
     (Value 7, host0\<lparr>world := [Ran 1, Ran 3, Ran 9],
                    console := [ConsoleError ''Error in operation step filter:'']\<rparr>)
   \<and> execute \<lparr>eventType = ''e'', steps = [Tap (mark 1), Filter (answer 4 True), Tap (mark 9)]\<rparr>
     (Value 7) host0 =
     (Value 7, host0\<lparr>world := [Ran 1, Ran 4, Ran 9]\<rparr>)
   \<and> execute \<lparr>eventType = ''e'', steps = [Tap (mark 1), Tap (boom 5), Tap (mark 9)]\<rparr>
     (Value 7) host0 =
     (Value 7, host0\<lparr>world := [Ran 1, Ran 5, Ran 9],
                    console := [ConsoleError ''Error in operation step tap:'']\<rparr>)"
proof -
  have pre: "execute_loop [Tap (mark 1)] (Value 7) host0 = (Some (Value 7), host0\<lparr>world := [Ran 1]\<rparr>)"
    by (simp add: call_def mark_def host0_def)
  show ?thesis
    using handler_failure_policy [OF pre, where f = "boom 2" and g = "boom 3"
        and g' = "answer 4 True" and t = "boom 5" and e = "''e''" and post = "[Tap (mark 9)]"
        and ?h2.0 = "host0\<lparr>world := [Ran 1, Ran 2]\<rparr>"
        and ?h3.0 = "host0\<lparr>world := [Ran 1, Ran 3]\<rparr>"
        and ?h4.0 = "host0\<lparr>world := [Ran 1, Ran 5]\<rparr>"
        and ?h5.0 = "host0\<lparr>world := [Ran 1, Ran 4]\<rparr>"]
    by (simp add: call_def mark_def boom_def answer_def host0_def execute_def console_error_def)
qed

text \<open>
  Claim C9. When the filter at position \<open>length pre\<close> returns false, \<open>execute\<close> returns
  \<^verbatim>\<open>undefined\<close> (SUPPRESSED) in the host as that filter left it, whatever steps
  \<open>post\<close> follow, and the evaluation calls no listener: the per-name pass of
  \<open>emitInternal\<close> and \<open>emitToListener\<close> return false in that same host, and the
  wildcard loop goes on to the next listener without calling this one.
\<close>

theorem filter_false_suppresses:
  assumes "execute_loop pre d h = (Some r, h1)"
      and "call f r h1 = (Returns False, h2)"
      and "steps c = pre @ Filter f # post"
  shows "execute c d h = (Undefined, h2)
       \<and> (operationChains em e = Some c \<and> listeners em e = Some (l # ls) \<longrightarrow>
            emitInternal e d em h = (False, h2))
       \<and> wildcard_loop e (Some c) d (wl # wls) called h =
            wildcard_loop e (Some c) d wls called h2
       \<and> (operationChains em e = Some c \<and> listeners em e = Some ls'
            \<and> find (\<lambda>l. lid l = i) ls' = Some target \<longrightarrow>
            emitToListener e d i em h = (False, h2))"
proof -
  have ex: "execute c d h = (Undefined, h2)"
    using assms by (simp add: execute_def execute_loop_append)
  then show ?thesis
    by (simp add: emitInternal_def emitToListener_def)
qed

theorem filter_false_suppresses_witness:
  "execute \<lparr>eventType = ''e'', steps = [Tap (mark 1), Filter (answer 2 False), Tap (mark 9)]\<rparr>
     (Value 7) host0 = (Undefined, host0\<lparr>world := [Ran 1, Ran 2]\<rparr>)
   \<and> emitInternal ''e'' (Value 7)
       (emitter0\<lparr>operationChains :=
                   [''e'' \<mapsto> \<lparr>eventType = ''e'',
                              steps = [Tap (mark 1), Filter (answer 2 False), Tap (mark 9)]\<rparr>],
                 listeners := [''e'' \<mapsto> [\<lparr>lid = ''0'', handler = recv 10\<rparr>]]\<rparr>) host0
     = (False, host0\<lparr>world := [Ran 1, Ran 2]\<rparr>)
   \<and> emitToListener ''e'' (Value 7) ''0''
       (emitter0\<lparr>operationChains :=
                   [''e'' \<mapsto> \<lparr>eventType = ''e'',
                              steps = [Tap (mark 1), Filter (answer 2 False), Tap (mark 9)]\<rparr>],
                 listeners := [''e'' \<mapsto> [\<lparr>lid = ''0'', handler = recv 10\<rparr>]]\<rparr>) host0
     = (False, host0\<lparr>world := [Ran 1, Ran 2]\<rparr>)"
proof -
  have pre: "execute_loop [Tap (mark 1)] (Value 7) host0 = (Some (Value 7), host0\<lparr>world := [Ran 1]\<rparr>)"
    by (simp add: call_def mark_def host0_def)
  have flt: "call (answer 2 False) (Value 7) (host0\<lparr>world := [Ran 1]\<rparr>)
               = (Returns False, host0\<lparr>world := [Ran 1, Ran 2]\<rparr>)"
    by (simp add: call_def answer_def host0_def)
  have st: "steps \<lparr>eventType = ''e'', steps = [Tap (mark 1), Filter (answer 2 False), Tap (mark 9)]\<rparr>
              = [Tap (mark 1)] @ Filter (answer 2 False) # [Tap (mark 9)]"
    by simp
  show ?thesis
    using filter_false_suppresses [OF pre flt st,
        where em = "emitter0\<lparr>operationChains :=
                   [''e'' \<mapsto> \<lparr>eventType = ''e'',
                              steps = [Tap (mark 1), Filter (answer 2 False), Tap (mark 9)]\<rparr>],
                 listeners := [''e'' \<mapsto> [\<lparr>lid = ''0'', handler = recv 10\<rparr>]]\<rparr>"
          and e = "''e''" and l = "\<lparr>lid = ''0'', handler = recv 10\<rparr>" and ls = "[]"
          and ls' = "[\<lparr>lid = ''0'', handler = recv 10\<rparr>]" and i = "''0''"
          and target = "\<lparr>lid = ''0'', handler = recv 10\<rparr>"]
    by simp
qed

section \<open>Targeted emission\<close>

lemma call_timers: "call f a h = (r, h1) \<Longrightarrow> timers h1 = timers h"
  by (auto simp: call_def split: prod.splits)

lemma console_error_timers [simp]: "timers (console_error m h) = timers h"
  by (simp add: console_error_def)

lemma execute_loop_timers: "execute_loop st d h = (r, h') \<Longrightarrow> timers h' = timers h"
proof (induction st arbitrary: d h)
  case Nil
  then show ?case by simp
next
  case (Cons s st)
  show ?case
  proof (cases s)
    case (Transform f)
    obtain x h1 where c: "call f d h = (x, h1)" by (cases "call f d h")
    with Cons Transform call_timers [OF c] show ?thesis
      by (cases x) auto
  next
    case (Filter f)
    obtain x h1 where c: "call f d h = (x, h1)" by (cases "call f d h")
    with Cons Filter call_timers [OF c] show ?thesis
      by (cases x) (auto split: if_splits)
  next
    case (Tap f)
    obtain x h1 where c: "call f d h = (x, h1)" by (cases "call f d h")
    with Cons Tap call_timers [OF c] show ?thesis
      by (cases x) auto
  qed
qed

lemma execute_timers: "execute c d h = (r, h') \<Longrightarrow> timers h' = timers h"
  by (auto simp: execute_def split: prod.splits option.splits dest: execute_loop_timers)

lemma processed_timers:
  "(case ch of Some c \<Rightarrow> execute c d h | None \<Rightarrow> (d, h)) = (r, h') \<Longrightarrow> timers h' = timers h"
  by (cases ch) (auto dest: execute_timers)

lemma emitToListener_timers: "timers (snd (emitToListener e d i em h)) = timers h"
proof (cases "listeners em e")
  case None
  then show ?thesis by (simp add: emitToListener_def)
next
  case (Some ls)
  show ?thesis
  proof (cases "find (\<lambda>l. lid l = i) ls")
    case None
    with Some show ?thesis by (simp add: emitToListener_def)
  next
    case (Some t)
    obtain pd h1 where p:
      "(case operationChains em e of Some c \<Rightarrow> execute c d h | None \<Rightarrow> (d, h)) = (pd, h1)"
      by (cases "case operationChains em e of Some c \<Rightarrow> execute c d h | None \<Rightarrow> (d, h)")
    obtain x h2 where c: "call (body (handler t)) (Payload pd) h1 = (x, h2)"
      by (cases "call (body (handler t)) (Payload pd) h1")
    from \<open>listeners em e = Some ls\<close> Some p c processed_timers [OF p] call_timers [OF c]
    show ?thesis
      by (cases x) (simp_all add: emitToListener_def)
  qed
qed

text \<open>
  Claim C7. \<open>emitToListener\<close> takes no clock and gives the same result whatever
  the debounce and throttle delays, timers and wildcard listeners are, and it
  leaves the pending timers of the host as they were: it is not gated and nothing
  is deferred. It returns false in the unchanged host when no listener of the
  event has the id. Otherwise the target is a listener of the event with that id,
  the chain is evaluated once, and the call returns false when the result is
  \<^verbatim>\<open>undefined\<close> (SUPPRESSED), false with a console report when the target's handler
  throws, and true when it returns; the final host is in each case the host after
  the chain, changed by no handler but the target's.
\<close>

theorem emitToListener_targeted:
  "emitToListener e d i
      (em\<lparr>debounceDelays := dd, throttleDelays := td, debounceTimers := dt,
          throttleTimers := tt, wildcardListeners := wl\<rparr>) h
     = emitToListener e d i em h
   \<and> timers (snd (emitToListener e d i em h)) = timers h
   \<and> ((\<forall>ls. listeners em e = Some ls \<longrightarrow> (\<forall>l \<in> set ls. lid l \<noteq> i)) \<longrightarrow>
        emitToListener e d i em h = (False, h))
   \<and> (listeners em e = Some ls \<and> find (\<lambda>l. lid l = i) ls = Some target
        \<and> (case operationChains em e of Some c \<Rightarrow> execute c d h | None \<Rightarrow> (d, h)) = (pd, h1) \<longrightarrow>
        lid target = i \<and> target \<in> set ls
        \<and> (pd = Undefined \<longrightarrow> emitToListener e d i em h = (False, h1))
        \<and> (pd \<noteq> Undefined \<and> call (body (handler target)) (Payload pd) h1 = (Throws, h2) \<longrightarrow>
             emitToListener e d i em h =
               (False, console_error (''Error in specific listener '' @ i @ '' for '' @ e @ '':'') h2))
        \<and> (pd \<noteq> Undefined \<and> call (body (handler target)) (Payload pd) h1 = (Returns (), h3) \<longrightarrow>
             emitToListener e d i em h = (True, h3)))"
proof -
  have a: "emitToListener e d i
      (em\<lparr>debounceDelays := dd, throttleDelays := td, debounceTimers := dt,
          throttleTimers := tt, wildcardListeners := wl\<rparr>) h
     = emitToListener e d i em h"
    by (simp add: emitToListener_def cong: option.case_cong)
  have b: "timers (snd (emitToListener e d i em h)) = timers h"
    by (rule emitToListener_timers)
  have c: "(\<forall>ls. listeners em e = Some ls \<longrightarrow> (\<forall>l \<in> set ls. lid l \<noteq> i)) \<longrightarrow>
        emitToListener e d i em h = (False, h)"
  proof
    assume none: "\<forall>ls. listeners em e = Some ls \<longrightarrow> (\<forall>l \<in> set ls. lid l \<noteq> i)"
    show "emitToListener e d i em h = (False, h)"
    proof (cases "listeners em e")
      case None
      then show ?thesis by (simp add: emitToListener_def)
    next
      case (Some ls)
      with none have "find (\<lambda>l. lid l = i) ls = None"
        by (simp add: find_None_iff)
      with Some show ?thesis by (simp add: emitToListener_def)
    qed
  qed
  have d: "listeners em e = Some ls \<and> find (\<lambda>l. lid l = i) ls = Some target
        \<and> (case operationChains em e of Some c \<Rightarrow> execute c d h | None \<Rightarrow> (d, h)) = (pd, h1) \<longrightarrow>
        lid target = i \<and> target \<in> set ls
        \<and> (pd = Undefined \<longrightarrow> emitToListener e d i em h = (False, h1))
        \<and> (pd \<noteq> Undefined \<and> call (body (handler target)) (Payload pd) h1 = (Throws, h2) \<longrightarrow>
             emitToListener e d i em h =
               (False, console_error (''Error in specific listener '' @ i @ '' for '' @ e @ '':'') h2))
        \<and> (pd \<noteq> Undefined \<and> call (body (handler target)) (Payload pd) h1 = (Returns (), h3) \<longrightarrow>
             emitToListener e d i em h = (True, h3))"
  proof (intro impI, elim conjE)
    assume ls: "listeners em e = Some ls"
      and f: "find (\<lambda>l. lid l = i) ls = Some target"
      and p: "(case operationChains em e of Some c \<Rightarrow> execute c d h | None \<Rightarrow> (d, h)) = (pd, h1)"
    from f have t: "lid target = i \<and> target \<in> set ls"
      by (auto simp: find_Some_iff)
    from ls f p have u: "pd = Undefined \<longrightarrow> emitToListener e d i em h = (False, h1)"
      by (simp add: emitToListener_def)
    from ls f p have v: "pd \<noteq> Undefined \<and> call (body (handler target)) (Payload pd) h1 = (Throws, h2) \<longrightarrow>
             emitToListener e d i em h =
               (False, console_error (''Error in specific listener '' @ i @ '' for '' @ e @ '':'') h2)"
      by (simp add: emitToListener_def)
    from ls f p have w: "pd \<noteq> Undefined \<and> call (body (handler target)) (Payload pd) h1 = (Returns (), h3) \<longrightarrow>
             emitToListener e d i em h = (True, h3)"
      by (simp add: emitToListener_def)
    from t u v w show "lid target = i \<and> target \<in> set ls
        \<and> (pd = Undefined \<longrightarrow> emitToListener e d i em h = (False, h1))
        \<and> (pd \<noteq> Undefined \<and> call (body (handler target)) (Payload pd) h1 = (Throws, h2) \<longrightarrow>
             emitToListener e d i em h =
               (False, console_error (''Error in specific listener '' @ i @ '' for '' @ e @ '':'') h2))
        \<and> (pd \<noteq> Undefined \<and> call (body (handler target)) (Payload pd) h1 = (Returns (), h3) \<longrightarrow>
             emitToListener e d i em h = (True, h3))"
      by blast
  qed
  from a b c d show ?thesis by blast
qed


theorem emitToListener_targeted_witness:
  "emitToListener ''e'' (Value 5) ''7'' emitter_gated host0 = (False, host0)
   \<and> emitToListener ''e'' (Value 0) ''0'' emitter_gated host0 =
       (False, host0\<lparr>world := [Ran 2]\<rparr>)
   \<and> emitToListener ''e'' (Value 5) ''1'' emitter_gated host0 =
       (False, host0\<lparr>world := [Ran 2, Ran 11],
                     console := [ConsoleError ''Error in specific listener 1 for e:'']\<rparr>)
   \<and> emitToListener ''e'' (Value 5) ''0'' emitter_gated host0 =
       (True, host0\<lparr>world := [Ran 2, Got 10 (Payload (Value 5))]\<rparr>)"
proof -
  have ls: "listeners emitter_gated ''e'' =
      Some [\<lparr>lid = ''0'', handler = recv 10\<rparr>, \<lparr>lid = ''1'', handler = Handler 11 (boom 11)\<rparr>]"
    by (simp add: emitter_gated_def emitter0_def)
  have ch: "operationChains emitter_gated ''e'' =
      Some \<lparr>eventType = ''e'', steps = [Filter (nonzero 2)]\<rparr>"
    by (simp add: emitter_gated_def emitter0_def)
  have p0: "execute \<lparr>eventType = ''e'', steps = [Filter (nonzero 2)]\<rparr> (Value 0) host0
      = (Undefined, host0\<lparr>world := [Ran 2]\<rparr>)"
    by (simp add: execute_def call_def nonzero_def host0_def)
  have p5: "execute \<lparr>eventType = ''e'', steps = [Filter (nonzero 2)]\<rparr> (Value 5) host0
      = (Value 5, host0\<lparr>world := [Ran 2]\<rparr>)"
    by (simp add: execute_def call_def nonzero_def host0_def)
  have ct: "call (boom 11) (Payload (Value 5)) (host0\<lparr>world := [Ran 2]\<rparr>)
      = (Throws, host0\<lparr>world := [Ran 2, Ran 11]\<rparr>)"
    by (simp add: call_def boom_def host0_def)
  have ce: "console_error ''Error in specific listener 1 for e:''
        (host0\<lparr>world := [Ran 2, Ran 11]\<rparr>)
      = host0\<lparr>world := [Ran 2, Ran 11],
               console := [ConsoleError ''Error in specific listener 1 for e:'']\<rparr>"
    by (simp add: console_error_def host0_def)
  have cr: "call (body (recv 10)) (Payload (Value 5)) (host0\<lparr>world := [Ran 2]\<rparr>)
      = (Returns (), host0\<lparr>world := [Ran 2, Got 10 (Payload (Value 5))]\<rparr>)"
    by (simp add: call_def recv_def host0_def)
  have absent: "emitToListener ''e'' (Value 5) ''7'' emitter_gated host0 = (False, host0)"
    using emitToListener_targeted [where em = emitter_gated and e = "''e''" and i = "''7''"
        and d = "Value 5" and h = host0]
    by (simp add: ls)
  have suppressed: "emitToListener ''e'' (Value 0) ''0'' emitter_gated host0 =
       (False, host0\<lparr>world := [Ran 2]\<rparr>)"
    using emitToListener_targeted [where em = emitter_gated and e = "''e''" and i = "''0''"
        and d = "Value 0" and h = host0 and pd = Undefined
        and ?h1.0 = "host0\<lparr>world := [Ran 2]\<rparr>"
        and target = "\<lparr>lid = ''0'', handler = recv 10\<rparr>"
        and ls = "[\<lparr>lid = ''0'', handler = recv 10\<rparr>,
                   \<lparr>lid = ''1'', handler = Handler 11 (boom 11)\<rparr>]"]
    by (simp add: ls ch p0)
  have throws: "emitToListener ''e'' (Value 5) ''1'' emitter_gated host0 =
       (False, host0\<lparr>world := [Ran 2, Ran 11],
                     console := [ConsoleError ''Error in specific listener 1 for e:'']\<rparr>)"
    using emitToListener_targeted [where em = emitter_gated and e = "''e''" and i = "''1''"
        and d = "Value 5" and h = host0 and pd = "Value 5"
        and ?h1.0 = "host0\<lparr>world := [Ran 2]\<rparr>"
        and ?h2.0 = "host0\<lparr>world := [Ran 2, Ran 11]\<rparr>"
        and target = "\<lparr>lid = ''1'', handler = Handler 11 (boom 11)\<rparr>"
        and ls = "[\<lparr>lid = ''0'', handler = recv 10\<rparr>,
                   \<lparr>lid = ''1'', handler = Handler 11 (boom 11)\<rparr>]"]
    by (simp add: ls ch p5 ct ce)
  have returns: "emitToListener ''e'' (Value 5) ''0'' emitter_gated host0 =
       (True, host0\<lparr>world := [Ran 2, Got 10 (Payload (Value 5))]\<rparr>)"
    using emitToListener_targeted [where em = emitter_gated and e = "''e''" and i = "''0''"
        and d = "Value 5" and h = host0 and pd = "Value 5"
        and ?h1.0 = "host0\<lparr>world := [Ran 2]\<rparr>"
        and ?h3.0 = "host0\<lparr>world := [Ran 2, Got 10 (Payload (Value 5))]\<rparr>"
        and target = "\<lparr>lid = ''0'', handler = recv 10\<rparr>"
        and ls = "[\<lparr>lid = ''0'', handler = recv 10\<rparr>,
                   \<lparr>lid = ''1'', handler = Handler 11 (boom 11)\<rparr>]"]
    by (simp add: ls ch p5 cr)
  from absent suppressed throws returns show ?thesis by blast
qed

section \<open>Unsubscribing by handler\<close>

lemma length_filter_same: "length (filter P xs) = length xs \<longleftrightarrow> filter P xs = xs"
proof
  assume "length (filter P xs) = length xs"
  then have "length (filter (\<lambda>x. \<not> P x) xs) = 0"
    using sum_length_filter_compl [of P xs] by simp
  then show "filter P xs = xs"
    by (simp add: filter_empty_conv filter_id_conv)
qed simp

lemma off_registered:
  "registered e (snd (off e (ByHandler f) em)) =
     filter (\<lambda>l. ref (handler l) \<noteq> ref f) (registered e em)"
proof (cases "e = ''*''")
  case True
  then show ?thesis by (simp add: off_def registered_def Let_def)
next
  case False
  show ?thesis
  proof (cases "listeners em e")
    case None
    with False show ?thesis by (simp add: off_def registered_def)
  next
    case (Some ls)
    with False show ?thesis
      by (simp add: off_def registered_def Let_def length_filter_same)
  qed
qed

lemma off_result:
  "fst (off e (ByHandler f) em) = (\<exists>l \<in> set (registered e em). ref (handler l) = ref f)"
proof (cases "e = ''*''")
  case True
  then show ?thesis
    by (auto simp: off_def registered_def Let_def length_filter_same filter_id_conv)
next
  case False
  show ?thesis
  proof (cases "listeners em e")
    case None
    with False show ?thesis by (simp add: off_def registered_def)
  next
    case (Some ls)
    with False show ?thesis
      by (auto simp: off_def registered_def Let_def length_filter_same filter_id_conv)
  qed
qed

lemma off_other:
  "e' \<noteq> e \<Longrightarrow> registered e' (snd (off e x em)) = registered e' em"
  by (auto simp: off_def registered_def Let_def split: option.splits)

lemma off_unchanged:
  "\<not> fst (off e x em) \<Longrightarrow> snd (off e x em) = em"
proof (cases "e = ''*''")
  case True
  assume "\<not> fst (off e x em)"
  with True show ?thesis
    by (simp add: off_def Let_def length_filter_same)
next
  case False
  assume "\<not> fst (off e x em)"
  with False show ?thesis
    by (auto simp: off_def Let_def split: option.splits if_splits)
qed

lemma on_thrice: "registered ''e'' subscribed_twice =
     [\<lparr>lid = ''0'', handler = recv 10\<rparr>, \<lparr>lid = ''1'', handler = recv 11\<rparr>,
      \<lparr>lid = ''2'', handler = recv 10\<rparr>]"
  by (simp add: subscribed_twice_def on_def emitter0_def registered_def Let_def
      listenerCount_def string_of_nat.simps)


text \<open>
  Claim C10. One \<open>off\<close> with a handler removes from the name (or from the wildcard
  list) every listener that holds this handler and keeps all the others, in their
  order; it returns true exactly when there was one to remove. A second \<open>off\<close> with
  the same arguments returns false and changes nothing. The listeners of every
  other name stay as they were.
\<close>

theorem off_by_handler:
  "registered e (snd (off e (ByHandler f) em)) =
     filter (\<lambda>l. ref (handler l) \<noteq> ref f) (registered e em)
   \<and> fst (off e (ByHandler f) em) = (\<exists>l \<in> set (registered e em). ref (handler l) = ref f)
   \<and> off e (ByHandler f) (snd (off e (ByHandler f) em)) = (False, snd (off e (ByHandler f) em))
   \<and> (\<forall>e'. e' \<noteq> e \<longrightarrow> registered e' (snd (off e (ByHandler f) em)) = registered e' em)"
proof -
  let ?em' = "snd (off e (ByHandler f) em)"
  have r: "registered e ?em' = filter (\<lambda>l. ref (handler l) \<noteq> ref f) (registered e em)"
    by (rule off_registered)
  have "\<not> fst (off e (ByHandler f) ?em')"
    unfolding off_result r by simp
  then have "off e (ByHandler f) ?em' = (False, ?em')"
    using off_unchanged [of e "ByHandler f" ?em'] by (cases "off e (ByHandler f) ?em'") simp
  with r off_result [of e f em] off_other [of _ e "ByHandler f" em] show ?thesis
    by blast
qed


theorem off_by_handler_witness:
  "registered ''e'' subscribed_twice =
     [\<lparr>lid = ''0'', handler = recv 10\<rparr>, \<lparr>lid = ''1'', handler = recv 11\<rparr>,
      \<lparr>lid = ''2'', handler = recv 10\<rparr>]
   \<and> registered ''e'' (snd (off ''e'' (ByHandler (recv 10)) subscribed_twice)) =
     [\<lparr>lid = ''1'', handler = recv 11\<rparr>]
   \<and> fst (off ''e'' (ByHandler (recv 10)) subscribed_twice)
   \<and> \<not> fst (off ''e'' (ByHandler (recv 10))
             (snd (off ''e'' (ByHandler (recv 10)) subscribed_twice)))"
  using off_by_handler [of "''e''" "recv 10" subscribed_twice] on_thrice
  by (simp add: recv_def)

section \<open>Construction and the listener cap\<close>

text \<open>
  A negative \<^verbatim>\<open>maxListeners\<close> fails, a positive one is kept, and without the
  option the cap is 10. Once the cap is 0 (as \<open>setMaxListeners 0\<close> makes it), \<open>on\<close>
  never warns.
\<close>

lemma new_default: "(new_EventEmitter None :: error + (nat, obs list) emitter) = Inr emitter0"
  by (simp add: new_EventEmitter_def emitter0_def)

lemma new_EventEmitter_cases:
  "(n < 0 \<longrightarrow> (new_EventEmitter (Some \<lparr>maxListeners_opt = Some n\<rparr>) :: error + ('v, 'w) emitter)
       = Inl (Error ''maxListeners cannot be negative''))
   \<and> (0 < n \<longrightarrow> (\<exists>em :: ('v, 'w) emitter.
          new_EventEmitter (Some \<lparr>maxListeners_opt = Some n\<rparr>) = Inr em \<and> getMaxListeners em = n))
   \<and> (\<exists>em :: ('v, 'w) emitter. new_EventEmitter None = Inr em \<and> getMaxListeners em = 10)
   \<and> (\<exists>em :: ('v, 'w) emitter.
          new_EventEmitter (Some \<lparr>maxListeners_opt = None\<rparr>) = Inr em \<and> getMaxListeners em = 10)"
  by (simp add: new_EventEmitter_def getMaxListeners_def)

lemma on_no_warning_when_zero:
  "maxListeners em = 0 \<Longrightarrow> console (snd (snd (on e f sg em h))) = console h"
  by (simp add: on_def Let_def split: option.splits)

text \<open>
  Claim C2 says that the option \<^verbatim>\<open>maxListeners: 0\<close> at construction turns the cap off
  and that \<^verbatim>\<open>getMaxListeners()\<close> then gives 0. The constructor does otherwise:
  \<^verbatim>\<open>config.maxListeners || 10\<close> takes 0 for a missing option, so the emitter is the
  default one with cap 10, and the eleventh listener of a name draws the warning.
\<close>

theorem constructor_zero_is_ten:
  "(new_EventEmitter (Some \<lparr>maxListeners_opt = Some 0\<rparr>) :: error + (nat, obs list) emitter)
     = Inr emitter0
   \<and> getMaxListeners emitter0 = 10
   \<and> console (snd (on_times 10 (emitter0, host0))) = []
   \<and> console (snd (on_times 11 (emitter0, host0)))
       = [ConsoleWarn ''Max listeners exceeded for event: e'']"
  by (simp add: new_EventEmitter_def emitter0_def getMaxListeners_def host0_def
      eval_nat_numeral on_def Let_def listenerCount_def console_warn_def)


section \<open>Delivery to per-name and wildcard listeners\<close>


lemma emitInternal_wildcard_only:
  assumes "listeners em e = None \<or> listeners em e = Some []"
  shows "emitInternal e d em h =
           wildcard_loop e (operationChains em e) d (wildcardListeners em) False h"
  using assms by (cases "wildcardListeners em") (auto simp: emitInternal_def Let_def)



section \<open>Removing all listeners of a name\<close>

text \<open>
  For a name other than the empty string, \<open>removeAllListeners\<close> drops the name's
  listeners, its record of a pending debounce timer (clearing the timer) and its
  last-fire time, and keeps the chains, the delays, the wildcard listeners and
  everything of the other names.
\<close>

lemma removeAllListeners_named:
  assumes "e \<noteq> []"
  shows "removeAllListeners (Some e) em h =
           (em\<lparr>listeners := (listeners em)(e := None),
               debounceTimers := AList.delete e (debounceTimers em),
               throttleTimers := (throttleTimers em)(e := None)\<rparr>,
            h\<lparr>timers := filter (\<lambda>x. Some (handle x) \<noteq> map_of (debounceTimers em) e) (timers h)\<rparr>)"
  using assms
  by (cases "map_of (debounceTimers em) e") (simp_all add: removeAllListeners_def clearTimeout_def)

lemma removeAllListeners_frame:
  assumes "e \<noteq> []" and "removeAllListeners (Some e) em h = (em', h')"
  shows "listeners em' e = None \<and> map_of (debounceTimers em') e = None
       \<and> throttleTimers em' e = None
       \<and> (\<forall>t. map_of (debounceTimers em) e = Some t \<longrightarrow> t \<notin> handle ` set (timers h'))
       \<and> operationChains em' = operationChains em
       \<and> debounceDelays em' = debounceDelays em \<and> throttleDelays em' = throttleDelays em
       \<and> wildcardListeners em' = wildcardListeners em
       \<and> (\<forall>e'. e' \<noteq> e \<longrightarrow>
             listeners em' e' = listeners em e'
           \<and> map_of (debounceTimers em') e' = map_of (debounceTimers em) e'
           \<and> throttleTimers em' e' = throttleTimers em e')
       \<and> (\<forall>x \<in> set (timers h). Some (handle x) \<noteq> map_of (debounceTimers em) e \<longrightarrow>
             x \<in> set (timers h'))
       \<and> world h' = world h \<and> console h' = console h"
  using assms(2) unfolding removeAllListeners_named [OF assms(1)]
  by (auto simp: delete_conv')

text \<open>
  Claim C8 says this of every event name. The test \<^verbatim>\<open>if (event)\<close> takes the empty
  string for a missing argument: \<open>removeAllListeners\<close> of the name \<^verbatim>\<open>''\<close> removes
  the listeners of every name and the wildcard listeners, and clears the timers and
  last-fire times of every name.
\<close>

theorem removeAllListeners_empty_name:
  "listenerCount ''a'' emitter_named = 1 \<and> listenerCount ''*'' emitter_named = 1
   \<and> removeAllListeners (Some '''') emitter_named host_pending =
       (emitter_named\<lparr>listeners := Map.empty, wildcardListeners := [],
                      debounceTimers := [], throttleTimers := Map.empty\<rparr>,
        host_pending\<lparr>timers := []\<rparr>)
   \<and> listenerCount ''a'' (fst (removeAllListeners (Some '''') emitter_named host_pending)) = 0
   \<and> listenerCount ''*'' (fst (removeAllListeners (Some '''') emitter_named host_pending)) = 0"
  by (simp add: removeAllListeners_def emitter_named_def emitter0_def host_pending_def host0_def
      listenerCount_def clearTimeout_def)

section \<open>The timing gates of emit\<close>

lemma emit_gate:
  "emit now e d em h =
     (if throttle_drops now e em then (False, em, h)
      else debounce_or_deliver now e d
             (if truthy (throttleDelays em e)
              then em\<lparr>throttleTimers := (throttleTimers em)(e \<mapsto> now)\<rparr> else em) h)"
  by (simp add: emit_def throttle_drops_def Let_def)

lemma emitInternal_no_listeners:
  assumes "listeners em e = None \<or> listeners em e = Some []" and "wildcardListeners em = []"
  shows "emitInternal e d em h = (False, h)"
  using assms by (auto simp: emitInternal_def)


lemma clearTimeout_frame [simp]:
  "world (clearTimeout t h) = world h" "console (clearTimeout t h) = console h"
  "next_handle (clearTimeout t h) = next_handle h"
  by (simp_all add: clearTimeout_def)

lemma debounce_schedules:
  assumes "truthy (debounceDelays em e)"
  shows "debounce_or_deliver now e d em h =
     (True, em\<lparr>debounceTimers := AList.update e (next_handle h) (debounceTimers em)\<rparr>,
      h\<lparr>timers := filter (\<lambda>x. Some (handle x) \<noteq> map_of (debounceTimers em) e) (timers h)
                     @ [\<lparr>handle = next_handle h, due = now + timeout_ms (num (debounceDelays em e)),
                          tevent = e, tdata = d\<rparr>],
        next_handle := next_handle h + 1\<rparr>)"
  using assms
  by (cases "map_of (debounceTimers em) e")
     (simp_all add: debounce_or_deliver_def setTimeout_def timeout_ms_def clearTimeout_def)

text \<open>
  Claim C3, amended. For a name with no per-name listener and no wildcard
  listener, no emission evaluates the chain or calls anything: the delivery
  returns false in the unchanged host, \<open>emit\<close> leaves world and console as they
  were, and so does the deferred delivery of the timer callback. \<open>emit\<close> returns
  false when no truthy debounce delay is set for the name; with one, it returns
  true whenever the throttle does not drop the call, the emission being only
  scheduled.
\<close>

theorem emit_without_listeners:
  assumes "listeners em e = None \<or> listeners em e = Some []" and "wildcardListeners em = []"
  shows "emitInternal e d em h = (False, h)
       \<and> world (snd (snd (emit now e d em h))) = world h
       \<and> console (snd (snd (emit now e d em h))) = console h
       \<and> (\<not> truthy (debounceDelays em e) \<longrightarrow>
            fst (emit now e d em h) = False \<and> snd (snd (emit now e d em h)) = h)
       \<and> (truthy (debounceDelays em e) \<longrightarrow>
            fst (emit now e d em h) = (\<not> throttle_drops now e em))
       \<and> snd (debounce_callback e d em h) = h"
proof -
  have i: "\<And>em'. listeners em' = listeners em \<Longrightarrow> wildcardListeners em' = wildcardListeners em
      \<Longrightarrow> emitInternal e d em' h = (False, h)"
    using assms by (intro emitInternal_no_listeners) auto
  have a: "emitInternal e d em h = (False, h)"
    by (rule i) simp_all
  have b: "\<not> truthy (debounceDelays em e) \<longrightarrow>
            fst (emit now e d em h) = False \<and> snd (snd (emit now e d em h)) = h"
    by (simp add: emit_gate debounce_or_deliver_def i)
  have c: "truthy (debounceDelays em e) \<longrightarrow>
            fst (emit now e d em h) = (\<not> throttle_drops now e em)"
    by (simp add: emit_gate debounce_schedules)
  have w: "world (snd (snd (emit now e d em h))) = world h
         \<and> console (snd (snd (emit now e d em h))) = console h"
  proof (cases "truthy (debounceDelays em e)")
    case True
    then show ?thesis by (simp add: emit_gate debounce_schedules)
  next
    case False
    with b show ?thesis by simp
  qed
  have cb: "snd (debounce_callback e d em h) = h"
    by (simp add: debounce_callback_def Let_def i)
  from a b c w cb show ?thesis by blast
qed

theorem emit_without_listeners_witness:
  "emit 1000 ''e'' (Value 5) emitter0 host0 = (False, emitter0, host0)
   \<and> world (snd (snd (emit 1000 ''e'' (Value 5) (setDebounce ''e'' 100 emitter0) host0))) = []
   \<and> fst (emit 1000 ''e'' (Value 5) (setDebounce ''e'' 100 emitter0) host0) = True
   \<and> snd (debounce_callback ''e'' (Value 5) (setDebounce ''e'' 100 emitter0) host0) = host0"
proof -
  have l: "listeners emitter0 ''e'' = None \<or> listeners emitter0 ''e'' = Some []"
    by (simp add: emitter0_def)
  have w: "wildcardListeners emitter0 = []"
    by (simp add: emitter0_def)
  have l': "listeners (setDebounce ''e'' 100 emitter0) ''e'' = None
      \<or> listeners (setDebounce ''e'' 100 emitter0) ''e'' = Some []"
    by (simp add: emitter0_def setDebounce_def)
  have w': "wildcardListeners (setDebounce ''e'' 100 emitter0) = []"
    by (simp add: emitter0_def setDebounce_def)
  have nd: "\<not> truthy (debounceDelays emitter0 ''e'')"
    by (simp add: emitter0_def)
  have d: "truthy (debounceDelays (setDebounce ''e'' 100 emitter0) ''e'')"
    by (simp add: setDebounce_def)
  have nt: "\<not> throttle_drops 1000 ''e'' (setDebounce ''e'' 100 emitter0)"
    by (simp add: throttle_drops_def setDebounce_def emitter0_def)
  have em: "fst (snd (emit 1000 ''e'' (Value 5) emitter0 host0)) = emitter0"
    by (simp add: emit_def debounce_or_deliver_def emitter0_def split: prod.splits)
  have "fst (emit 1000 ''e'' (Value 5) emitter0 host0) = False
      \<and> snd (snd (emit 1000 ''e'' (Value 5) emitter0 host0)) = host0"
    using emit_without_listeners [OF l w, of "Value 5" host0 1000] nd by blast
  with em have one: "emit 1000 ''e'' (Value 5) emitter0 host0 = (False, emitter0, host0)"
    by (metis prod.collapse)
  note th = emit_without_listeners [OF l' w', of "Value 5" host0 1000]
  from th have two:
    "world (snd (snd (emit 1000 ''e'' (Value 5) (setDebounce ''e'' 100 emitter0) host0))) = []"
    by (simp add: host0_def)
  from th d nt have three:
    "fst (emit 1000 ''e'' (Value 5) (setDebounce ''e'' 100 emitter0) host0) = True"
    by blast
  from th have four:
    "snd (debounce_callback ''e'' (Value 5) (setDebounce ''e'' 100 emitter0) host0) = host0"
    by blast
  from one two three four show ?thesis by blast
qed

text \<open>
  Claim C3 as stated has every \<open>emit\<close> on such a name return false. With a
  debounce delay of 100 ms and no listener at all, \<open>emit\<close> returns true.
\<close>

theorem debounced_emit_without_listeners_returns_true:
  "listenerCount ''e'' (setDebounce ''e'' 100 emitter0) = 0
   \<and> listenerCount ''*'' (setDebounce ''e'' 100 emitter0) = 0
   \<and> fst (emit 1000 ''e'' (Value 5) (setDebounce ''e'' 100 emitter0) host0) = True"
  by (simp add: listenerCount_def setDebounce_def emitter0_def emit_def debounce_or_deliver_def
      setTimeout_def)


lemma debounce_or_deliver_throttleTimers:
  "throttleTimers (fst (snd (debounce_or_deliver now e d em h))) = throttleTimers em"
  by (simp add: debounce_or_deliver_def Let_def split: prod.splits)

lemma throttled_at_fields:
  "D \<noteq> 0 \<Longrightarrow> throttleDelays (throttled_at D t) ''e'' = Some D"
  "D \<noteq> 0 \<Longrightarrow> throttleTimers (throttled_at D t) ''e'' = Some t"
  "D \<noteq> 0 \<Longrightarrow> throttled_at D t =
     emitter_one\<lparr>throttleDelays := [''e'' \<mapsto> D], throttleTimers := [''e'' \<mapsto> t]\<rparr>"
  by (simp_all add: throttled_at_def emit_def setThrottle_def emitter_one_def emitter0_def
      debounce_or_deliver_def Let_def split: prod.splits)

text \<open>
  Claim C6, amended. With a non-zero throttle delay \<open>D\<close> for the name: an \<open>emit\<close>
  less than \<open>D\<close> after the last fire, recorded at a non-zero time, returns false and
  changes neither emitter nor host, whatever the debounce setting; an \<open>emit\<close> at or
  after last fire plus \<open>D\<close>, or with no fire recorded, records the current time as
  the last fire and goes on to the debounce or delivery path. With the delay 0
  the throttle is off: nothing is dropped and no time is recorded.
\<close>

theorem throttle_gate:
  "(throttleDelays em e = Some D \<and> D \<noteq> 0 \<and> throttleTimers em e = Some t \<and> t \<noteq> 0
      \<and> now - t < D \<longrightarrow>
      emit now e d em h = (False, em, h))
   \<and> (throttleDelays em e = Some D \<and> D \<noteq> 0
      \<and> (throttleTimers em e = None \<or> (\<exists>t. throttleTimers em e = Some t \<and> D \<le> now - t)) \<longrightarrow>
      emit now e d em h =
        debounce_or_deliver now e d (em\<lparr>throttleTimers := (throttleTimers em)(e \<mapsto> now)\<rparr>) h
      \<and> throttleTimers (fst (snd (emit now e d em h))) e = Some now)
   \<and> (throttleDelays em e = Some 0 \<longrightarrow>
      emit now e d em h = debounce_or_deliver now e d em h
      \<and> throttleTimers (fst (snd (emit now e d em h))) = throttleTimers em)"
proof -
  have a: "throttleDelays em e = Some D \<and> D \<noteq> 0 \<and> throttleTimers em e = Some t \<and> t \<noteq> 0
      \<and> now - t < D \<longrightarrow> emit now e d em h = (False, em, h)"
    by (simp add: emit_gate throttle_drops_def)
  have b: "throttleDelays em e = Some D \<and> D \<noteq> 0
      \<and> (throttleTimers em e = None \<or> (\<exists>t. throttleTimers em e = Some t \<and> D \<le> now - t)) \<longrightarrow>
      emit now e d em h =
        debounce_or_deliver now e d (em\<lparr>throttleTimers := (throttleTimers em)(e \<mapsto> now)\<rparr>) h"
    by (auto simp: emit_gate throttle_drops_def)
  have c: "throttleDelays em e = Some 0 \<longrightarrow>
      emit now e d em h = debounce_or_deliver now e d em h"
    by (simp add: emit_gate throttle_drops_def)
  from a b c show ?thesis
    by (auto simp: debounce_or_deliver_throttleTimers)
qed


theorem throttle_gate_witness:
  "emit 1005 ''e'' (Value 6) (throttled_at 10 1000) host0 = (False, throttled_at 10 1000, host0)
   \<and> emit 1015 ''e'' (Value 6) (throttled_at 10 1000) host0
     = (True, (throttled_at 10 1000)\<lparr>throttleTimers := [''e'' \<mapsto> 1015]\<rparr>,
        host0\<lparr>world := [Got 10 (Payload (Value 6))]\<rparr>)
   \<and> emit 1005 ''e'' (Value 6) (setThrottle ''e'' 0 (throttled_at 10 1000)) host0
     = (True, setThrottle ''e'' 0 (throttled_at 10 1000),
        host0\<lparr>world := [Got 10 (Payload (Value 6))]\<rparr>)"
proof -
  have dl: "debounce_or_deliver 1015 ''e'' (Value 6)
        ((throttled_at 10 1000)\<lparr>throttleTimers :=
            (throttleTimers (throttled_at 10 1000))(''e'' \<mapsto> 1015)\<rparr>) host0
     = (True, (throttled_at 10 1000)\<lparr>throttleTimers := [''e'' \<mapsto> 1015]\<rparr>,
        host0\<lparr>world := [Got 10 (Payload (Value 6))]\<rparr>)"
    by (simp add: throttled_at_fields debounce_or_deliver_def emitInternal_def emitter_one_def
        emitter0_def call_def recv_def host0_def)
  have dl0: "debounce_or_deliver 1005 ''e'' (Value 6)
        (setThrottle ''e'' 0 (throttled_at 10 1000)) host0
     = (True, setThrottle ''e'' 0 (throttled_at 10 1000),
        host0\<lparr>world := [Got 10 (Payload (Value 6))]\<rparr>)"
    by (simp add: throttled_at_fields setThrottle_def debounce_or_deliver_def emitInternal_def
        emitter_one_def emitter0_def call_def recv_def host0_def)
  have drop: "emit 1005 ''e'' (Value 6) (throttled_at 10 1000) host0
      = (False, throttled_at 10 1000, host0)"
    using throttle_gate [where em = "throttled_at 10 1000" and e = "''e''" and D = 10
        and t = 1000 and now = 1005 and d = "Value 6" and h = host0]
    by (simp add: throttled_at_fields(1,2))
  have pass: "emit 1015 ''e'' (Value 6) (throttled_at 10 1000) host0
     = (True, (throttled_at 10 1000)\<lparr>throttleTimers := [''e'' \<mapsto> 1015]\<rparr>,
        host0\<lparr>world := [Got 10 (Payload (Value 6))]\<rparr>)"
    using throttle_gate [where em = "throttled_at 10 1000" and e = "''e''" and D = 10
        and now = 1015 and d = "Value 6" and h = host0]
    by (simp add: throttled_at_fields(1,2) dl)
  have off: "emit 1005 ''e'' (Value 6) (setThrottle ''e'' 0 (throttled_at 10 1000)) host0
     = (True, setThrottle ''e'' 0 (throttled_at 10 1000),
        host0\<lparr>world := [Got 10 (Payload (Value 6))]\<rparr>)"
    using throttle_gate [where em = "setThrottle ''e'' 0 (throttled_at 10 1000)"
        and e = "''e''" and now = 1005 and d = "Value 6" and h = host0]
    by (simp add: dl0) (simp add: setThrottle_def)
  from drop pass off show ?thesis by blast
qed

text \<open>
  Claim C6 as stated has, for every configured delay, an \<open>emit\<close> at or after last
  fire plus the delay record the current time. With the delay set to 0 after a
  fire at time 500, an \<open>emit\<close> at time 1000 leaves the last fire at 500.
\<close>

theorem throttle_zero_records_nothing:
  "throttleDelays (setThrottle ''e'' 0 (throttled_at 100 500)) ''e'' = Some 0
   \<and> throttleTimers (setThrottle ''e'' 0 (throttled_at 100 500)) ''e'' = Some 500
   \<and> (500 :: int) + 0 \<le> 1000
   \<and> throttleTimers
        (fst (snd (emit 1000 ''e'' (Value 6) (setThrottle ''e'' 0 (throttled_at 100 500)) host0)))
        ''e'' = Some 500"
  by (simp add: throttled_at_fields setThrottle_def emit_def debounce_or_deliver_def Let_def
      split: prod.splits)

text \<open>
  A last fire recorded at time 0 is falsy in \<^verbatim>\<open>lastThrottleTime && ...\<close>, so the call
  after it is never dropped: with \<open>D = 10\<close>, emissions at times 0 and 5 are both
  delivered. The statement above leaves this case aside.
\<close>

lemma throttle_last_fire_at_time_zero:
  "emit 0 ''e'' (Value 5) (setThrottle ''e'' 10 emitter_one) host0
     = (True, throttled_at 10 0, host0\<lparr>world := [Got 10 (Payload (Value 5))]\<rparr>)
   \<and> fst (emit 5 ''e'' (Value 6) (throttled_at 10 0) host0) = True"
  by (simp add: throttled_at_fields setThrottle_def emit_def debounce_or_deliver_def Let_def
      emitInternal_def emitter_one_def emitter0_def call_def recv_def host0_def
      split: prod.splits)

section \<open>Debounce\<close>

lemma emitInternal_fields:
  "listeners em' = listeners em \<Longrightarrow> wildcardListeners em' = wildcardListeners em
    \<Longrightarrow> operationChains em' = operationChains em
    \<Longrightarrow> emitInternal e d em' h = emitInternal e d em h"
  by (simp add: emitInternal_def Let_def cong: option.case_cong if_cong)

lemma invoke_listeners_timers: "timers (invoke_listeners e ls d h) = timers h"
proof (induction ls arbitrary: h)
  case Nil
  then show ?case by simp
next
  case (Cons l ls)
  obtain x h1 where c: "call (body (handler l)) (Payload d) h = (x, h1)"
    by (cases "call (body (handler l)) (Payload d) h")
  with Cons call_timers [OF c] show ?case
    by (cases x) simp_all
qed

lemma wildcard_loop_timers: "timers (snd (wildcard_loop e ch d ls called h)) = timers h"
proof (induction ls arbitrary: called h)
  case Nil
  then show ?case by simp
next
  case (Cons l ls)
  obtain wd h1 where p: "(case ch of Some c \<Rightarrow> execute c d h | None \<Rightarrow> (d, h)) = (wd, h1)"
    by (cases "case ch of Some c \<Rightarrow> execute c d h | None \<Rightarrow> (d, h)")
  obtain x h2 where c: "call (body (handler l)) (Envelope e wd) h1 = (x, h2)"
    by (cases "call (body (handler l)) (Envelope e wd) h1")
  from Cons p c processed_timers [OF p] call_timers [OF c] show ?case
    by (cases x) simp_all
qed

lemma emitInternal_timers: "timers (snd (emitInternal e d em h)) = timers h"
proof -
  obtain pd h1 where p:
    "(case operationChains em e of Some c \<Rightarrow> execute c d h | None \<Rightarrow> (d, h)) = (pd, h1)"
    by (cases "case operationChains em e of Some c \<Rightarrow> execute c d h | None \<Rightarrow> (d, h)")
  from p processed_timers [OF p] show ?thesis
    by (simp add: emitInternal_def Let_def wildcard_loop_timers invoke_listeners_timers
        split: option.splits)
qed

lemma run_due_none: "\<forall>x \<in> set (timers (snd s)). T < due x \<Longrightarrow> run_due T s = s"
proof -
  assume "\<forall>x \<in> set (timers (snd s)). T < due x"
  then have "filter (\<lambda>t. due t \<le> T) (timers (snd s)) = []"
    by (auto simp: filter_empty_conv)
  then show ?thesis by (simp add: run_due_def)
qed

lemma emit_true_not_dropped: "fst (emit t e d em h) \<Longrightarrow> \<not> throttle_drops t e em"
  by (auto simp: emit_gate)

lemma first_call:
  assumes "truthy (debounceDelays em e)" and "timers h = []" and "fst (emit t e d em h)"
  shows "one_pending em h e 0 t d (snd (emit t e d em h))"
  using assms emit_true_not_dropped [OF assms(3)]
  by (simp add: emit_gate debounce_schedules one_pending_def update_conv')

lemma next_call:
  assumes "truthy (debounceDelays em e)" and "one_pending em h e k t d s"
    and "fst (emit t' e d' (fst s) (snd s))"
  shows "one_pending em h e (Suc k) t' d' (snd (emit t' e d' (fst s) (snd s)))"
proof -
  from assms(1,2) have tr: "truthy (debounceDelays (fst s) e)"
    by (simp add: one_pending_def)
  have tr': "\<And>em'. debounceDelays em' = debounceDelays (fst s) \<Longrightarrow> truthy (debounceDelays em' e)"
    using tr by simp
  show ?thesis
    using assms(2) emit_true_not_dropped [OF assms(3)]
    by (simp add: emit_gate debounce_schedules tr' one_pending_def update_conv')
qed


lemma burst_from_pending:
  assumes tr: "truthy (debounceDelays em e)"
  shows "one_pending em h e k t d s
    \<Longrightarrow> burst_within (timeout_ms (num (debounceDelays em e))) ((t, d) # calls)
    \<Longrightarrow> \<forall>r \<in> set (fst (emit_burst e calls s)). r
    \<Longrightarrow> one_pending em h e (k + length calls) (fst (last ((t, d) # calls)))
          (snd (last ((t, d) # calls))) (snd (emit_burst e calls s))"
proof (induction calls arbitrary: k t d s)
  case Nil
  then show ?case by simp
next
  case (Cons c cs)
  let ?s1 = "snd (emit (fst c) e (snd c) (fst s) (snd s))"
  from Cons.prems(2) have gap: "fst c - t < timeout_ms (num (debounceDelays em e))"
    and rest: "burst_within (timeout_ms (num (debounceDelays em e))) ((fst c, snd c) # cs)"
    by simp_all
  from Cons.prems(1) gap have "\<forall>x \<in> set (timers (snd s)). fst c < due x"
    by (simp add: one_pending_def)
  then have idle: "run_due (fst c) s = s"
    by (rule run_due_none)
  have unfold: "emit_burst e (c # cs) s =
      (fst (emit (fst c) e (snd c) (fst s) (snd s)) # fst (emit_burst e cs ?s1),
       snd (emit_burst e cs ?s1))"
    by (simp add: idle split: prod.splits)
  from Cons.prems(3) have ok: "fst (emit (fst c) e (snd c) (fst s) (snd s))"
    unfolding unfold by simp
  from Cons.prems(3) have oks: "\<forall>r \<in> set (fst (emit_burst e cs ?s1)). r"
    unfolding unfold by auto
  have "one_pending em h e (Suc k) (fst c) (snd c) ?s1"
    using tr Cons.prems(1) ok by (rule next_call)
  from Cons.IH [OF this rest oks]
  have "one_pending em h e (Suc k + length cs) (fst (last ((fst c, snd c) # cs)))
          (snd (last ((fst c, snd c) # cs))) (snd (emit_burst e cs ?s1))" .
  moreover have "snd (emit_burst e (c # cs) s) = snd (emit_burst e cs ?s1)"
    unfolding unfold by simp
  moreover have "last ((t, d) # c # cs) = last ((fst c, snd c) # cs)"
    by simp
  moreover have "k + length (c # cs) = Suc k + length cs"
    by simp
  ultimately show ?case
    by (simp only:)
qed

lemma fire_eq:
  "fire tm s =
     (if handle tm \<in> handle ` set (timers (snd s))
      then debounce_callback (tevent tm) (tdata tm) (fst s) (clearTimeout (handle tm) (snd s))
      else s)"
  by (cases s) (simp add: fire_def)

lemma pending_idle:
  assumes "one_pending em h e k t d s" and "T < t + timeout_ms (num (debounceDelays em e))"
  shows "run_due T s = s"
  using assms by (intro run_due_none) (simp add: one_pending_def)

lemma pending_fires:
  assumes p: "one_pending em h e k t d s" and empty: "timers h = []"
  shows "run_due (t + timeout_ms (num (debounceDelays em e))) s =
           ((fst s)\<lparr>debounceTimers := AList.delete e (debounceTimers (fst s))\<rparr>,
            snd (emitInternal e d em (h\<lparr>next_handle := next_handle h + Suc k\<rparr>)))"
proof -
  have cleared: "clearTimeout (next_handle h + k) (snd s)
      = h\<lparr>next_handle := next_handle h + Suc k\<rparr>"
    using p empty by (intro host.equality) (simp_all add: one_pending_def clearTimeout_def)
  have same: "emitInternal e d ((fst s)\<lparr>debounceTimers := AList.delete e (debounceTimers (fst s))\<rparr>)
      (h\<lparr>next_handle := next_handle h + Suc k\<rparr>)
      = emitInternal e d em (h\<lparr>next_handle := next_handle h + Suc k\<rparr>)"
    using p by (intro emitInternal_fields) (simp_all add: one_pending_def)
  from p have tm: "timers (snd s) = [\<lparr>handle = next_handle h + k,
      due = t + timeout_ms (num (debounceDelays em e)), tevent = e, tdata = d\<rparr>]"
    by (simp add: one_pending_def)
  let ?tm = "\<lparr>handle = next_handle h + k, due = t + timeout_ms (num (debounceDelays em e)),
               tevent = e, tdata = d\<rparr>"
  have "run_due (t + timeout_ms (num (debounceDelays em e))) s = fire ?tm s"
    by (simp add: run_due_def tm)
  also have "\<dots> = debounce_callback e d (fst s) (clearTimeout (next_handle h + k) (snd s))"
    by (simp add: fire_eq tm)
  also have "\<dots> = ((fst s)\<lparr>debounceTimers := AList.delete e (debounceTimers (fst s))\<rparr>,
            snd (emitInternal e d em (h\<lparr>next_handle := next_handle h + Suc k\<rparr>)))"
    unfolding cleared debounce_callback_def Let_def same ..
  finally show ?thesis .
qed


lemma burst_pending:
  assumes tr: "truthy (debounceDelays em e)" and empty: "timers h = []"
    and ne: "calls \<noteq> []"
    and within: "burst_within (timeout_ms (num (debounceDelays em e))) calls"
    and ok: "\<forall>r \<in> set (fst (emit_burst e calls (em, h))). r"
  shows "one_pending em h e (length calls - 1) (fst (last calls)) (snd (last calls))
           (snd (emit_burst e calls (em, h)))"
proof -
  from ne obtain c cs where calls: "calls = c # cs"
    by (cases calls) auto
  let ?s1 = "snd (emit (fst c) e (snd c) em h)"
  have idle: "run_due (fst c) (em, h) = (em, h)"
    by (rule run_due_none) (simp add: empty)
  have unfold: "emit_burst e (c # cs) (em, h) =
      (fst (emit (fst c) e (snd c) em h) # fst (emit_burst e cs ?s1),
       snd (emit_burst e cs ?s1))"
    by (simp add: idle split: prod.splits)
  from ok have ok1: "fst (emit (fst c) e (snd c) em h)"
    unfolding calls unfold by simp
  from ok have oks: "\<forall>r \<in> set (fst (emit_burst e cs ?s1)). r"
    unfolding calls unfold by auto
  have first: "one_pending em h e 0 (fst c) (snd c) ?s1"
    using tr empty ok1 by (rule first_call)
  have rest: "burst_within (timeout_ms (num (debounceDelays em e))) ((fst c, snd c) # cs)"
    using within calls by simp
  from burst_from_pending [OF tr first rest oks]
  have "one_pending em h e (0 + length cs) (fst (last ((fst c, snd c) # cs)))
          (snd (last ((fst c, snd c) # cs))) (snd (emit_burst e cs ?s1))" .
  moreover have "snd (emit_burst e calls (em, h)) = snd (emit_burst e cs ?s1)"
    unfolding calls unfold by simp
  moreover have "last calls = last ((fst c, snd c) # cs)"
    by (simp add: calls)
  moreover have "length calls - 1 = 0 + length cs"
    by (simp add: calls)
  ultimately show ?thesis
    by (simp only:)
qed

lemma debounce_emit:
  assumes "debounceDelays em e = Some D" and "1 \<le> D" and "D \<le> 2147483647"
    and "\<not> throttle_drops now e em"
  shows "fst (emit now e d em h) = True
       \<and> timers (snd (snd (emit now e d em h))) =
           filter (\<lambda>x. Some (handle x) \<noteq> map_of (debounceTimers em) e) (timers h)
             @ [\<lparr>handle = next_handle h, due = now + D, tevent = e, tdata = d\<rparr>]
       \<and> map_of (debounceTimers (fst (snd (emit now e d em h)))) e = Some (next_handle h)
       \<and> world (snd (snd (emit now e d em h))) = world h
       \<and> console (snd (snd (emit now e d em h))) = console h"
  using assms by (simp add: emit_gate debounce_schedules update_conv' timeout_ms_def)

lemma fire_pending:
  assumes "tm \<in> set (timers h)"
  shows "fire tm (em, h) =
           (em\<lparr>debounceTimers := AList.delete (tevent tm) (debounceTimers em)\<rparr>,
            snd (emitInternal (tevent tm) (tdata tm) em (clearTimeout (handle tm) h)))"
proof -
  have "emitInternal (tevent tm) (tdata tm)
          (em\<lparr>debounceTimers := AList.delete (tevent tm) (debounceTimers em)\<rparr>)
          (clearTimeout (handle tm) h)
        = emitInternal (tevent tm) (tdata tm) em (clearTimeout (handle tm) h)"
    by (intro emitInternal_fields) simp_all
  with assms show ?thesis
    by (simp add: fire_eq debounce_callback_def Let_def)
qed

lemma burst_results:
  "fst (emit_burst ''e'' [(0, Value 5), (5, Value 6)] (emitter_debounced, host0)) = [True, True]"
  by (simp add: emitter_debounced_def setDebounce_def emitter_one_def emitter0_def host0_def
      run_due_def emit_def debounce_or_deliver_def setTimeout_def timeout_ms_def clearTimeout_def
      split: prod.splits)

text \<open>
  Claim C5, amended. With a debounce delay \<open>D\<close> for the name that the platform's
  timer honours, from 1 to 2147483647 ms: an \<open>emit\<close> that the throttle does not drop
  returns true at once and delivers nothing; it clears the timer recorded for the
  name and leaves, recorded for the name, a new timer due at \<open>now + D\<close> that carries
  the current payload. A pending timer that fires clears the record of the name
  and passes its payload to the delivery of \<open>emitInternal\<close>. So after a burst of
  calls, none dropped, each less than \<open>D\<close> after the one before, exactly one timer
  is pending, due \<open>D\<close> after the last call with the last payload; nothing has been
  delivered, nothing is delivered before that time, and at that time the host
  becomes what one delivery of the last payload makes of the initial host, with
  no timer left and no record for the name.
\<close>

theorem debounce_defers:
  assumes "debounceDelays em e = Some D" and "1 \<le> D" and "D \<le> 2147483647"
  shows "(\<not> throttle_drops now e em \<longrightarrow>
            fst (emit now e d em h) = True
          \<and> timers (snd (snd (emit now e d em h))) =
              filter (\<lambda>x. Some (handle x) \<noteq> map_of (debounceTimers em) e) (timers h)
                @ [\<lparr>handle = next_handle h, due = now + D, tevent = e, tdata = d\<rparr>]
          \<and> map_of (debounceTimers (fst (snd (emit now e d em h)))) e = Some (next_handle h)
          \<and> world (snd (snd (emit now e d em h))) = world h
          \<and> console (snd (snd (emit now e d em h))) = console h)
       \<and> (tm \<in> set (timers h) \<longrightarrow>
            fire tm (em, h) =
              (em\<lparr>debounceTimers := AList.delete (tevent tm) (debounceTimers em)\<rparr>,
               snd (emitInternal (tevent tm) (tdata tm) em (clearTimeout (handle tm) h))))
       \<and> (timers h = [] \<and> calls \<noteq> [] \<and> burst_within D calls
            \<and> (\<forall>r \<in> set (fst (emit_burst e calls (em, h))). r) \<longrightarrow>
            timers (snd (snd (emit_burst e calls (em, h)))) =
              [\<lparr>handle = next_handle h + (length calls - 1), due = fst (last calls) + D,
                 tevent = e, tdata = snd (last calls)\<rparr>]
          \<and> world (snd (snd (emit_burst e calls (em, h)))) = world h
          \<and> console (snd (snd (emit_burst e calls (em, h)))) = console h
          \<and> (\<forall>T. T < fst (last calls) + D \<longrightarrow>
                run_due T (snd (emit_burst e calls (em, h))) = snd (emit_burst e calls (em, h)))
          \<and> snd (run_due (fst (last calls) + D) (snd (emit_burst e calls (em, h)))) =
              snd (emitInternal e (snd (last calls)) em
                     (h\<lparr>next_handle := next_handle h + length calls\<rparr>))
          \<and> timers (snd (run_due (fst (last calls) + D) (snd (emit_burst e calls (em, h))))) = []
          \<and> map_of (debounceTimers
                (fst (run_due (fst (last calls) + D) (snd (emit_burst e calls (em, h)))))) e
              = None)"
proof (intro conjI impI)
  assume "\<not> throttle_drops now e em"
  from debounce_emit [OF assms this, of d h]
  show "fst (emit now e d em h) = True"
    and "timers (snd (snd (emit now e d em h))) =
              filter (\<lambda>x. Some (handle x) \<noteq> map_of (debounceTimers em) e) (timers h)
                @ [\<lparr>handle = next_handle h, due = now + D, tevent = e, tdata = d\<rparr>]"
    and "map_of (debounceTimers (fst (snd (emit now e d em h)))) e = Some (next_handle h)"
    and "world (snd (snd (emit now e d em h))) = world h"
    and "console (snd (snd (emit now e d em h))) = console h"
    by simp_all
next
  assume "tm \<in> set (timers h)"
  then show "fire tm (em, h) =
              (em\<lparr>debounceTimers := AList.delete (tevent tm) (debounceTimers em)\<rparr>,
               snd (emitInternal (tevent tm) (tdata tm) em (clearTimeout (handle tm) h)))"
    by (rule fire_pending)
next
  let ?s = "snd (emit_burst e calls (em, h))"
  let ?t = "fst (last calls)"
  let ?p = "snd (last calls)"
  assume b: "timers h = [] \<and> calls \<noteq> [] \<and> burst_within D calls
            \<and> (\<forall>r \<in> set (fst (emit_burst e calls (em, h))). r)"
  from assms have tr: "truthy (debounceDelays em e)"
    and n: "timeout_ms (num (debounceDelays em e)) = D"
    by (simp_all add: timeout_ms_def)
  from b have empty: "timers h = []" and ne: "calls \<noteq> []" by simp_all
  from b n have within: "burst_within (timeout_ms (num (debounceDelays em e))) calls" by simp
  from b have ok: "\<forall>r \<in> set (fst (emit_burst e calls (em, h))). r" by blast
  have p: "one_pending em h e (length calls - 1) ?t ?p ?s"
    using tr empty ne within ok by (rule burst_pending)
  from ne have len: "Suc (length calls - 1) = length calls"
    by (cases calls) simp_all
  show "timers (snd ?s) =
              [\<lparr>handle = next_handle h + (length calls - 1), due = ?t + D,
                 tevent = e, tdata = ?p\<rparr>]"
    using p n by (simp add: one_pending_def)
  show "world (snd ?s) = world h"
    using p by (simp add: one_pending_def)
  show "console (snd ?s) = console h"
    using p by (simp add: one_pending_def)
  show "\<forall>T. T < ?t + D \<longrightarrow> run_due T ?s = ?s"
    using pending_idle [OF p] n by simp
  have f: "run_due (?t + D) ?s =
           ((fst ?s)\<lparr>debounceTimers := AList.delete e (debounceTimers (fst ?s))\<rparr>,
            snd (emitInternal e ?p em (h\<lparr>next_handle := next_handle h + length calls\<rparr>)))"
    using pending_fires [OF p empty] by (simp only: n len)
  show "snd (run_due (?t + D) ?s) =
          snd (emitInternal e ?p em (h\<lparr>next_handle := next_handle h + length calls\<rparr>))"
    by (simp add: f)
  show "timers (snd (run_due (?t + D) ?s)) = []"
    by (simp add: f emitInternal_timers empty)
  show "map_of (debounceTimers (fst (run_due (?t + D) ?s))) e = None"
    by (simp add: f delete_conv')
qed


theorem debounce_defers_witness:
  "fst (emit 0 ''e'' (Value 5) emitter_debounced host0) = True
   \<and> timers (snd (snd (emit 0 ''e'' (Value 5) emitter_debounced host0))) =
       [\<lparr>handle = 1, due = 10, tevent = ''e'', tdata = Value 5\<rparr>]
   \<and> world (snd (snd (emit 0 ''e'' (Value 5) emitter_debounced host0))) = []
   \<and> timers (snd (snd (emit_burst ''e'' [(0, Value 5), (5, Value 6)] (emitter_debounced, host0))))
       = [\<lparr>handle = 2, due = 15, tevent = ''e'', tdata = Value 6\<rparr>]
   \<and> run_due 14 (snd (emit_burst ''e'' [(0, Value 5), (5, Value 6)] (emitter_debounced, host0)))
       = snd (emit_burst ''e'' [(0, Value 5), (5, Value 6)] (emitter_debounced, host0))
   \<and> snd (run_due 15
         (snd (emit_burst ''e'' [(0, Value 5), (5, Value 6)] (emitter_debounced, host0))))
       = host0\<lparr>world := [Got 10 (Payload (Value 6))], next_handle := 3\<rparr>
   \<and> fire \<lparr>handle = 1, due = 10, tevent = ''e'', tdata = Value 5\<rparr>
         (snd (emit 0 ''e'' (Value 5) emitter_debounced host0))
       = (emitter_debounced,
          host0\<lparr>world := [Got 10 (Payload (Value 5))], next_handle := 2\<rparr>)"
proof -
  have dd: "debounceDelays emitter_debounced ''e'' = Some 10"
    by (simp add: emitter_debounced_def setDebounce_def)
  have lo: "(1 :: int) \<le> 10" and hi: "(10 :: int) \<le> 2147483647"
    by simp_all
  have nt: "\<not> throttle_drops 0 ''e'' emitter_debounced"
    by (simp add: throttle_drops_def emitter_debounced_def setDebounce_def emitter_one_def
        emitter0_def)
  have dt: "map_of (debounceTimers emitter_debounced) ''e'' = None"
    by (simp add: emitter_debounced_def setDebounce_def emitter_one_def emitter0_def)
  have h0: "timers host0 = []" "next_handle host0 = 1" "world host0 = []"
    by (simp_all add: host0_def)
  have bw: "burst_within 10 [(0 :: int, Value (5 :: nat)), (5, Value 6)]"
    by simp
  have delivered: "snd (emitInternal ''e'' (Value 6) emitter_debounced
        (host0\<lparr>next_handle := next_handle host0 + length [(0 :: int, Value (5 :: nat)), (5, Value 6)]\<rparr>))
      = host0\<lparr>world := [Got 10 (Payload (Value 6))], next_handle := 3\<rparr>"
    by (simp add: emitInternal_def emitter_debounced_def setDebounce_def emitter_one_def
        emitter0_def host0_def call_def recv_def)
  note th = debounce_defers [OF dd lo hi, where now = 0 and d = "Value 5" and h = host0
      and calls = "[(0, Value 5), (5, Value 6)]"]
  from th nt dt h0 have one: "fst (emit 0 ''e'' (Value 5) emitter_debounced host0) = True
   \<and> timers (snd (snd (emit 0 ''e'' (Value 5) emitter_debounced host0))) =
       [\<lparr>handle = 1, due = 10, tevent = ''e'', tdata = Value 5\<rparr>]
   \<and> world (snd (snd (emit 0 ''e'' (Value 5) emitter_debounced host0))) = []"
    by simp
  from th h0 bw burst_results delivered
  have two: "timers (snd (snd (emit_burst ''e'' [(0, Value 5), (5, Value 6)] (emitter_debounced, host0))))
       = [\<lparr>handle = 2, due = 15, tevent = ''e'', tdata = Value 6\<rparr>]
   \<and> run_due 14 (snd (emit_burst ''e'' [(0, Value 5), (5, Value 6)] (emitter_debounced, host0)))
       = snd (emit_burst ''e'' [(0, Value 5), (5, Value 6)] (emitter_debounced, host0))
   \<and> snd (run_due 15
         (snd (emit_burst ''e'' [(0, Value 5), (5, Value 6)] (emitter_debounced, host0))))
       = host0\<lparr>world := [Got 10 (Payload (Value 6))], next_handle := 3\<rparr>"
    by (simp del: emit_burst.simps)
  let ?tm = "\<lparr>handle = 1, due = 10, tevent = ''e'', tdata = Value (5 :: nat)\<rparr>"
  let ?em1 = "emitter_debounced\<lparr>debounceTimers := [(''e'', 1)]\<rparr>"
  let ?h1 = "host0\<lparr>timers := [?tm], next_handle := 2\<rparr>"
  have first: "snd (emit 0 ''e'' (Value 5) emitter_debounced host0) = (?em1, ?h1)"
    by (simp add: emitter_debounced_def setDebounce_def emitter_one_def emitter0_def host0_def
        emit_def debounce_or_deliver_def setTimeout_def timeout_ms_def)
  have dd1: "debounceDelays ?em1 ''e'' = Some 10"
    by (simp add: dd)
  have pend: "?tm \<in> set (timers ?h1)"
    by simp
  have fired: "(?em1\<lparr>debounceTimers := AList.delete (tevent ?tm) (debounceTimers ?em1)\<rparr>,
        snd (emitInternal (tevent ?tm) (tdata ?tm) ?em1 (clearTimeout (handle ?tm) ?h1)))
      = (emitter_debounced,
         host0\<lparr>world := [Got 10 (Payload (Value 5))], next_handle := 2\<rparr>)"
    by (simp add: emitInternal_def clearTimeout_def emitter_debounced_def setDebounce_def
        emitter_one_def emitter0_def host0_def call_def recv_def)
  from debounce_defers [OF dd1 lo hi, where tm = ?tm and h = ?h1] pend
  have "fire ?tm (?em1, ?h1) =
      (?em1\<lparr>debounceTimers := AList.delete (tevent ?tm) (debounceTimers ?em1)\<rparr>,
       snd (emitInternal (tevent ?tm) (tdata ?tm) ?em1 (clearTimeout (handle ?tm) ?h1)))"
    by blast
  with fired first have three: "fire ?tm (snd (emit 0 ''e'' (Value 5) emitter_debounced host0))
       = (emitter_debounced,
          host0\<lparr>world := [Got 10 (Payload (Value 5))], next_handle := 2\<rparr>)"
    by (simp only:)
  from one two three show ?thesis by blast
qed

text \<open>
  Claim C5 as stated is about every configured delay. With the delay 0 the test
  \<^verbatim>\<open>if (debounceDelay)\<close> fails: \<open>emit\<close> delivers at once, here to nobody, so it returns
  false and no timer is pending. With a delay of 2147483648 ms, or a negative one,
  the emission is deferred, but the timer is due 1 ms after the call, not \<open>D\<close>
  after it.
\<close>

theorem debounce_zero_is_immediate:
  "debounceDelays (setDebounce ''e'' 0 emitter0) ''e'' = Some 0
   \<and> emit 1000 ''e'' (Value 5) (setDebounce ''e'' 0 emitter0) host0
       = (False, setDebounce ''e'' 0 emitter0, host0)
   \<and> timers host0 = []
   \<and> debounceDelays (setDebounce ''e'' 2147483648 emitter0) ''e'' = Some 2147483648
   \<and> timers (snd (snd (emit 1000 ''e'' (Value 5) (setDebounce ''e'' 2147483648 emitter0) host0)))
       = [\<lparr>handle = 1, due = 1001, tevent = ''e'', tdata = Value 5\<rparr>]
   \<and> debounceDelays (setDebounce ''e'' (- 5) emitter0) ''e'' = Some (- 5)
   \<and> timers (snd (snd (emit 1000 ''e'' (Value 5) (setDebounce ''e'' (- 5) emitter0) host0)))
       = [\<lparr>handle = 1, due = 1001, tevent = ''e'', tdata = Value 5\<rparr>]"
  by (simp add: setDebounce_def emitter0_def host0_def emit_def debounce_or_deliver_def
      emitInternal_def setTimeout_def timeout_ms_def)

section \<open>A suppressed per-name pass\<close>




end
